theory Spec2Isabelle
  imports Main "HOL-Library.Multiset"
begin

section \<open>The resource store of kubectl-fzf (pkg/resourcewatcher/k8s_store.go)\<close>

text \<open>
  The store keeps a map from identities to records and mirrors it into a text file, by
  appending lines (\<open>AppendNewObject\<close>) or by rewriting the whole file through a scratch
  file that is renamed over the destination (\<open>DumpFullState\<close>). Everything the Go code
  does to the outside is explicit here: the file system is a value of type \<open>world\<close>, the
  reading of the clock and the iteration order of the Go map are arguments, an error is a
  value and a nil dereference is the outcome \<open>Panic\<close>.
\<close>

subsection \<open>Errors and outcomes\<close>

text \<open>
  \<open>SysErr op\<close> is the error of a failed system call, \<open>ErrClosed\<close> the error of using a
  closed \<open>*os.File\<close>, \<open>ErrNotExist\<close> the error of renaming a path that has no file, and
  \<open>Wrapped msg e\<close> is \<open>errors.Wrapf(e, msg)\<close>.
\<close>

datatype error = SysErr string | ErrClosed | ErrNotExist | Wrapped string error

text \<open>A Go call either returns or panics.\<close>

datatype 'a outcome = Return 'a | Panic

subsection \<open>Time\<close>

text \<open>
  A \<open>time.Time\<close> is a number of nanoseconds since the zero time, a \<open>time.Duration\<close> is an
  int64 of nanoseconds. \<open>Time.Sub\<close> saturates at the ends of the int64 range.
\<close>

definition maxDuration :: int where
  "maxDuration = 2 ^ 63 - 1"

definition minDuration :: int where
  "minDuration = - (2 ^ 63)"

definition time_Sub :: "int \<Rightarrow> int \<Rightarrow> int" where
  "time_Sub t u =
     (if t - u > maxDuration then maxDuration
      else if t - u < minDuration then minDuration
      else t - u)"

subsection \<open>The file system\<close>

text \<open>
  A directory entry sends a path to an inode, an inode has a content. An open file
  (\<open>*os.File\<close>) is an inode with an offset; it follows the file when the path is renamed.
  \<open>faults\<close> is the schedule of the coming system calls: each call that can fail takes the
  head, \<open>None\<close> lets it succeed, \<open>Some n\<close> makes it fail (a write fails after \<open>n\<close>
  bytes); an empty schedule lets every call succeed. \<open>warnings\<close> is what
  \<open>glog.Warningf\<close> has printed.
\<close>

record file_handle =
  h_inode :: nat
  h_pos :: nat
  h_closed :: bool

record world =
  paths :: "string \<rightharpoonup> nat"
  inodes :: "nat \<Rightarrow> string"
  next_inode :: nat
  faults :: "nat option list"
  warnings :: "(string \<times> error) list"

definition next_fault :: "world \<Rightarrow> nat option \<times> world" where
  "next_fault w =
     (case faults w of
        [] \<Rightarrow> (None, w)
      | f # fs \<Rightarrow> (f, w\<lparr>faults := fs\<rparr>))"

definition read_file :: "world \<Rightarrow> string \<Rightarrow> string option" where
  "read_file w p = map_option (inodes w) (paths w p)"

text \<open>\<open>os.MkdirAll\<close>: directories are not tracked, the call succeeds or fails.\<close>

definition os_MkdirAll :: "string \<Rightarrow> world \<Rightarrow> error option \<times> world" where
  "os_MkdirAll p w =
     (case next_fault w of
        (Some n, w1) \<Rightarrow> (Some (SysErr ''mkdir''), w1)
      | (None, w1) \<Rightarrow> (None, w1))"

text \<open>
  \<open>os.Create\<close> opens with \<open>O_RDWR|O_CREATE|O_TRUNC\<close>: an existing file keeps its inode
  and loses its content, a missing one gets a fresh inode. On failure Go returns a nil
  file and the error.
\<close>

definition os_Create :: "string \<Rightarrow> world \<Rightarrow> (error + file_handle) \<times> world" where
  "os_Create p w =
     (case next_fault w of
        (Some n, w1) \<Rightarrow> (Inl (SysErr ''open''), w1)
      | (None, w1) \<Rightarrow>
          (case paths w1 p of
             Some i \<Rightarrow>
               (Inr \<lparr>h_inode = i, h_pos = 0, h_closed = False\<rparr>,
                w1\<lparr>inodes := (inodes w1)(i := [])\<rparr>)
           | None \<Rightarrow>
               (Inr \<lparr>h_inode = next_inode w1, h_pos = 0, h_closed = False\<rparr>,
                w1\<lparr>paths := (paths w1)(p \<mapsto> next_inode w1),
                   inodes := (inodes w1)(next_inode w1 := []),
                   next_inode := Suc (next_inode w1)\<rparr>)))"

text \<open>
  Writing \<open>s\<close> at offset \<open>pos\<close>: the file is not opened with \<open>O_APPEND\<close>, so an offset
  beyond the end leaves a hole of zero bytes.
\<close>

definition write_at :: "string \<Rightarrow> nat \<Rightarrow> string \<Rightarrow> string" where
  "write_at c pos s =
     take pos (c @ replicate (pos - length c) (CHR 0x00)) @ s @ drop (pos + length s) c"

definition file_WriteString ::
  "file_handle \<Rightarrow> string \<Rightarrow> world \<Rightarrow> error option \<times> file_handle \<times> world" where
  "file_WriteString h s w =
     (if h_closed h then (Some ErrClosed, h, w)
      else
        (case next_fault w of
           (Some n, w1) \<Rightarrow>
             (Some (SysErr ''write''),
              h\<lparr>h_pos := h_pos h + length (take n s)\<rparr>,
              w1\<lparr>inodes := (inodes w1)
                   (h_inode h := write_at (inodes w1 (h_inode h)) (h_pos h) (take n s))\<rparr>)
         | (None, w1) \<Rightarrow>
             (None,
              h\<lparr>h_pos := h_pos h + length s\<rparr>,
              w1\<lparr>inodes := (inodes w1)
                   (h_inode h := write_at (inodes w1 (h_inode h)) (h_pos h) s)\<rparr>)))"

definition file_Sync :: "file_handle \<Rightarrow> world \<Rightarrow> error option \<times> world" where
  "file_Sync h w =
     (if h_closed h then (Some ErrClosed, w)
      else
        (case next_fault w of
           (Some n, w1) \<Rightarrow> (Some (SysErr ''fsync''), w1)
         | (None, w1) \<Rightarrow> (None, w1)))"

text \<open>\<open>Close\<close>: the source drops its result; the handle is closed afterwards.\<close>

definition file_Close :: "file_handle \<Rightarrow> file_handle" where
  "file_Close h = h\<lparr>h_closed := True\<rparr>"

definition os_Rename :: "string \<Rightarrow> string \<Rightarrow> world \<Rightarrow> error option \<times> world" where
  "os_Rename old new w =
     (case next_fault w of
        (Some n, w1) \<Rightarrow> (Some (SysErr ''rename''), w1)
      | (None, w1) \<Rightarrow>
          (case paths w1 old of
             None \<Rightarrow> (Some ErrNotExist, w1)
           | Some i \<Rightarrow> (None, w1\<lparr>paths := ((paths w1)(old := None))(new \<mapsto> i)\<rparr>)))"

definition glog_Warningf :: "string \<Rightarrow> error \<Rightarrow> world \<Rightarrow> world" where
  "glog_Warningf msg e w = w\<lparr>warnings := warnings w @ [(msg, e)]\<rparr>"

subsection \<open>bufio.Writer\<close>

text \<open>
  \<open>bufio.NewWriter\<close> gives a buffer of \<open>defaultBufSize\<close> bytes. An error of the
  underlying file is kept in the writer: every later \<open>WriteString\<close> and \<open>Flush\<close> returns
  it. The file the writer wraps is passed along, since writing moves its offset.
\<close>

definition defaultBufSize :: nat where
  "defaultBufSize = 4096"

record bufio_Writer =
  bw_buf :: string
  bw_err :: "error option"

definition bufio_NewWriter :: bufio_Writer where
  "bufio_NewWriter = \<lparr>bw_buf = [], bw_err = None\<rparr>"

definition bw_Available :: "bufio_Writer \<Rightarrow> nat" where
  "bw_Available b = defaultBufSize - length (bw_buf b)"

definition bw_Flush ::
  "bufio_Writer \<Rightarrow> file_handle \<Rightarrow> world
     \<Rightarrow> error option \<times> bufio_Writer \<times> file_handle \<times> world" where
  "bw_Flush b h w =
     (case bw_err b of
        Some e \<Rightarrow> (Some e, b, h, w)
      | None \<Rightarrow>
          if bw_buf b = [] then (None, b, h, w)
          else
            (case file_WriteString h (bw_buf b) w of
               (Some e, h1, w1) \<Rightarrow>
                 (Some e,
                  b\<lparr>bw_buf := drop (h_pos h1 - h_pos h) (bw_buf b), bw_err := Some e\<rparr>,
                  h1, w1)
             | (None, h1, w1) \<Rightarrow> (None, b\<lparr>bw_buf := []\<rparr>, h1, w1)))"

function bw_WriteString ::
  "bufio_Writer \<Rightarrow> file_handle \<Rightarrow> string \<Rightarrow> world
     \<Rightarrow> error option \<times> bufio_Writer \<times> file_handle \<times> world" where
  "bw_WriteString b h s w =
     (if length s > bw_Available b \<and> bw_err b = None then
        (case bw_Flush (b\<lparr>bw_buf := bw_buf b @ take (bw_Available b) s\<rparr>) h w of
           (e, b1, h1, w1) \<Rightarrow> bw_WriteString b1 h1 (drop (bw_Available b) s) w1)
      else
        (case bw_err b of
           Some e \<Rightarrow> (Some e, b, h, w)
         | None \<Rightarrow> (None, b\<lparr>bw_buf := bw_buf b @ s\<rparr>, h, w)))"
  by pat_completeness auto
termination bw_WriteString
  apply (relation "measures [\<lambda>(b, h, s, w). length s,
    \<lambda>(b, h, s, w). (if bw_err b = None then 1 else 0)
       + (if defaultBufSize \<le> length (bw_buf b) then 1 else (0::nat))]")
   apply simp
  apply (auto simp: bw_Available_def bw_Flush_def defaultBufSize_def
          split: option.splits if_splits prod.splits)
  done

declare bw_WriteString.simps [simp del]

subsection \<open>Raw objects, records and the store\<close>

text \<open>
  A raw object of the informer carries its metadata (\<open>metav1.ObjectMetaAccessor\<close>) and
  a body that only the adapter reads.
\<close>

record 'a k8s_object =
  Namespace :: string
  Name :: string
  body :: 'a

definition resourceKey :: "'a k8s_object \<Rightarrow> string" where
  "resourceKey obj = Namespace obj @ ''_'' @ Name obj"

text \<open>
  The interface \<open>k8sresources.K8sResource\<close> is declared outside the two source files; its
  two methods used by the store are taken as a table of functions over the record type
  \<open>'r\<close>. \<open>HasChanged\<close> receives \<open>k.data[key]\<close>, which is nil (\<open>None\<close>) for a missing key.
\<close>

record 'r K8sResource =
  ToString :: "'r \<Rightarrow> string"
  HasChanged :: "'r \<Rightarrow> 'r option \<Rightarrow> bool"

record StoreConfig =
  Cluster :: string
  CacheDir :: string
  TimeBetweenFullDump :: int

record ('a, 'r) watchConfig =
  cfg_resourceCtor :: "'a k8s_object \<Rightarrow> 'r"
  cfg_resourceName :: string
  cfg_header :: string

record ('a, 'r) K8sStore =
  data :: "string \<rightharpoonup> 'r"
  resourceCtor :: "'a k8s_object \<Rightarrow> 'r"
  header :: string
  resourceName :: string
  destFile :: string
  tempFileName :: string
  currentFile :: file_handle
  lastFullDump :: int
  storeConfig :: StoreConfig
  firstWrite :: bool

text \<open>
  \<open>NewK8sStore\<close>; \<open>path.Join\<close> is an argument. On an error the Go code returns a store
  whose map is nil together with the error; the model returns the error alone.
\<close>

definition NewK8sStore ::
  "(string \<Rightarrow> string \<Rightarrow> string) \<Rightarrow> ('a, 'r) watchConfig \<Rightarrow> StoreConfig \<Rightarrow> world
     \<Rightarrow> (error + ('a, 'r) K8sStore) \<times> world" where
  "NewK8sStore path_Join cfg sc w =
     (let destDir = path_Join (CacheDir sc) (Cluster sc);
          dest = path_Join destDir (cfg_resourceName cfg)
      in case os_MkdirAll destDir w of
           (Some err, w1) \<Rightarrow> (Inl (Wrapped (''Error creating directory '' @ destDir) err), w1)
         | (None, w1) \<Rightarrow>
             (case os_Create (dest @ ''_'') w1 of
                (Inl err, w2) \<Rightarrow>
                  (Inl (Wrapped (''Error creating file '' @ dest @ ''_'') err), w2)
              | (Inr f, w2) \<Rightarrow>
                  (Inr \<lparr>data = Map.empty,
                        resourceCtor = cfg_resourceCtor cfg,
                        header = cfg_header cfg,
                        resourceName = cfg_resourceName cfg,
                        destFile = dest,
                        tempFileName = dest @ ''_'',
                        currentFile = f,
                        lastFullDump = 0,
                        storeConfig = sc,
                        firstWrite = True\<rparr>, w2)))"

subsection \<open>DumpFullState\<close>

text \<open>
  \<open>for _, v := range k.data\<close> visits the entries in an order the Go runtime chooses;
  \<open>ord\<close> is that order, a list of the keys of the map.
\<close>

definition range_values :: "('k \<rightharpoonup> 'r) \<Rightarrow> 'k list \<Rightarrow> 'r list" where
  "range_values m ord = List.map_filter m ord"

text \<open>The body of the loop: the first failing \<open>WriteString\<close> ends it.\<close>

fun write_records ::
  "'r K8sResource \<Rightarrow> bufio_Writer \<Rightarrow> file_handle \<Rightarrow> 'r list \<Rightarrow> world
     \<Rightarrow> error option \<times> bufio_Writer \<times> file_handle \<times> world" where
  "write_records R b h [] w = (None, b, h, w)"
| "write_records R b h (v # vs) w =
     (case bw_WriteString b h (ToString R v) w of
        (Some err, b1, h1, w1) \<Rightarrow> (Some err, b1, h1, w1)
      | (None, b1, h1, w1) \<Rightarrow> write_records R b1 h1 vs w1)"

text \<open>
  \<open>now\<close> is the reading of \<open>time.Now()\<close>. When \<open>os.Create\<close> fails, its file is nil and the
  argument \<open>tempFileName.Name()\<close> of the next log call dereferences it: the call panics
  before the error is looked at. The result of writing the header is dropped, as in the
  source.
\<close>

definition DumpFullState ::
  "'r K8sResource \<Rightarrow> int \<Rightarrow> string list \<Rightarrow> ('a, 'r) K8sStore \<Rightarrow> world
     \<Rightarrow> error option outcome \<times> ('a, 'r) K8sStore \<times> world" where
  "DumpFullState R now ord k w =
     (if time_Sub now (lastFullDump k) < TimeBetweenFullDump (storeConfig k)
      then (Return None, k, w)
      else
        (case os_Create (tempFileName k) w of
           (Inl err, w1) \<Rightarrow> (Panic, k\<lparr>lastFullDump := now\<rparr>, w1)
         | (Inr tf, w1) \<Rightarrow>
             (case bw_WriteString bufio_NewWriter tf (header k) w1 of
                (e0, b1, tf1, w2) \<Rightarrow>
             (case write_records R b1 tf1 (range_values (data k) ord) w2 of
                (Some err, b2, tf2, w3) \<Rightarrow>
                  (Return (Some (Wrapped
                     (''Error writing bytes to file '' @ tempFileName k) err)),
                   k\<lparr>lastFullDump := now\<rparr>, w3)
              | (None, b2, tf2, w3) \<Rightarrow>
             (case bw_Flush b2 tf2 w3 of
                (Some err, b3, tf3, w4) \<Rightarrow>
                  (Return (Some (Wrapped ''Error flushing buffer'' err)),
                   k\<lparr>lastFullDump := now\<rparr>, w4)
              | (None, b3, tf3, w4) \<Rightarrow>
             (case file_Sync tf3 w4 of
                (Some err, w5) \<Rightarrow>
                  (Return (Some (Wrapped ''Error syncing file'' err)),
                   k\<lparr>lastFullDump := now\<rparr>, w5)
              | (None, w5) \<Rightarrow>
             (case os_Rename (tempFileName k) (destFile k) w5 of
                (Some err, w6) \<Rightarrow>
                  (Return (Some (Wrapped
                     (''Error moving file from '' @ tempFileName k @ '' to '' @ destFile k)
                     err)),
                   k\<lparr>lastFullDump := now, currentFile := file_Close (currentFile k)\<rparr>, w6)
              | (None, w6) \<Rightarrow>
                  (Return None, k\<lparr>lastFullDump := now, currentFile := tf3\<rparr>, w6))))))))"

subsection \<open>AppendNewObject\<close>

text \<open>
  On the first write the header goes to the open file (the result of that write is
  dropped), the flag is cleared and the scratch path is renamed; an error of the rename
  is returned as it is, before the line of the record is written.
\<close>

definition AppendNewObject ::
  "'r K8sResource \<Rightarrow> 'r \<Rightarrow> ('a, 'r) K8sStore \<Rightarrow> world
     \<Rightarrow> error option \<times> ('a, 'r) K8sStore \<times> world" where
  "AppendNewObject R resource k w =
     (case
        (if firstWrite k then
           (case file_WriteString (currentFile k) (header k) w of
              (e0, cf, w1) \<Rightarrow>
                (case os_Rename (tempFileName k) (destFile k) w1 of
                   (r, w2) \<Rightarrow> (r, k\<lparr>currentFile := cf, firstWrite := False\<rparr>, w2)))
         else (None, k, w))
      of
        (Some err, k1, w1) \<Rightarrow> (Some err, k1, w1)
      | (None, k1, w1) \<Rightarrow>
          (case file_WriteString (currentFile k1) (ToString R resource) w1 of
             (r, cf, w2) \<Rightarrow> (r, k1\<lparr>currentFile := cf\<rparr>, w2)))"

subsection \<open>The calls of the informer\<close>

text \<open>A dropped error is printed by \<open>glog.Warningf\<close>; a panic goes on to the caller.\<close>

definition log_dump_result ::
  "error option outcome \<times> ('a, 'r) K8sStore \<times> world
     \<Rightarrow> unit outcome \<times> ('a, 'r) K8sStore \<times> world" where
  "log_dump_result x =
     (case x of
        (Panic, k, w) \<Rightarrow> (Panic, k, w)
      | (Return None, k, w) \<Rightarrow> (Return (), k, w)
      | (Return (Some err), k, w) \<Rightarrow>
          (Return (), k, glog_Warningf ''Error when dumping state'' err w))"

definition AddResourceList ::
  "'r K8sResource \<Rightarrow> int \<Rightarrow> string list \<Rightarrow> 'a k8s_object list \<Rightarrow> ('a, 'r) K8sStore \<Rightarrow> world
     \<Rightarrow> unit outcome \<times> ('a, 'r) K8sStore \<times> world" where
  "AddResourceList R now ord lstRuntime k w =
     log_dump_result
       (DumpFullState R now ord
          (k\<lparr>data := foldl (\<lambda>m obj. m(resourceKey obj \<mapsto> resourceCtor k obj))
                       Map.empty lstRuntime\<rparr>) w)"

definition AddResource ::
  "'r K8sResource \<Rightarrow> 'a k8s_object \<Rightarrow> ('a, 'r) K8sStore \<Rightarrow> world
     \<Rightarrow> ('a, 'r) K8sStore \<times> world" where
  "AddResource R obj k w =
     (case AppendNewObject R (resourceCtor k obj)
             (k\<lparr>data := (data k)(resourceKey obj \<mapsto> resourceCtor k obj)\<rparr>) w of
        (Some err, k1, w1) \<Rightarrow>
          (k1, glog_Warningf ''Error when appending new object to current state'' err w1)
      | (None, k1, w1) \<Rightarrow> (k1, w1))"

text \<open>
  The argument of a delete is a tombstone \<open>cache.DeletedFinalStateUnknown\<close>, an object
  with metadata, or anything else. The object inside a tombstone is an \<open>interface{}\<close>:
  \<open>None\<close> stands for one without metadata, on which the type assertion of \<open>resourceKey\<close>
  panics.
\<close>

datatype 'a delete_arg =
    DeletedFinalStateUnknown "'a k8s_object option"
  | ObjectMetaAccessor "'a k8s_object"
  | OtherType

definition delete_key :: "'a delete_arg \<Rightarrow> string outcome" where
  "delete_key obj =
     (case obj of
        DeletedFinalStateUnknown None \<Rightarrow> Panic
      | DeletedFinalStateUnknown (Some v) \<Rightarrow> Return (resourceKey v)
      | ObjectMetaAccessor v \<Rightarrow> Return (resourceKey v)
      | OtherType \<Rightarrow> Return ''Unknown'')"

definition DeleteResource ::
  "'r K8sResource \<Rightarrow> int \<Rightarrow> string list \<Rightarrow> 'a delete_arg \<Rightarrow> ('a, 'r) K8sStore \<Rightarrow> world
     \<Rightarrow> unit outcome \<times> ('a, 'r) K8sStore \<times> world" where
  "DeleteResource R now ord obj k w =
     (case delete_key obj of
        Panic \<Rightarrow> (Panic, k, w)
      | Return key \<Rightarrow>
          log_dump_result
            (DumpFullState R now ord (k\<lparr>data := (data k)(key := None)\<rparr>) w))"

definition UpdateResource ::
  "'r K8sResource \<Rightarrow> int \<Rightarrow> string list \<Rightarrow> 'a k8s_object \<Rightarrow> 'a k8s_object
     \<Rightarrow> ('a, 'r) K8sStore \<Rightarrow> world \<Rightarrow> unit outcome \<times> ('a, 'r) K8sStore \<times> world" where
  "UpdateResource R now ord oldObj newObj k w =
     (if HasChanged R (resourceCtor k newObj) (data k (resourceKey newObj)) then
        log_dump_result
          (DumpFullState R now ord
             (k\<lparr>data := (data k)(resourceKey newObj \<mapsto> resourceCtor k newObj)\<rparr>) w)
      else (Return (), k, w))"

subsection \<open>The informer as a sequence of events\<close>

text \<open>
  The informer calls the store serially. An event carries what the call reads from its
  environment: the clock and the iteration order for the calls that dump. A panic ends
  the run.
\<close>

datatype 'a event =
    ListEvent int "string list" "'a k8s_object list"
  | AddEvent "'a k8s_object"
  | UpdateEvent int "string list" "'a k8s_object" "'a k8s_object"
  | DeleteEvent int "string list" "'a delete_arg"

fun apply_event ::
  "'r K8sResource \<Rightarrow> 'a event \<Rightarrow> ('a, 'r) K8sStore \<Rightarrow> world
     \<Rightarrow> unit outcome \<times> ('a, 'r) K8sStore \<times> world" where
  "apply_event R (ListEvent now ord lst) k w = AddResourceList R now ord lst k w"
| "apply_event R (AddEvent obj) k w =
     (case AddResource R obj k w of (k1, w1) \<Rightarrow> (Return (), k1, w1))"
| "apply_event R (UpdateEvent now ord oldObj newObj) k w =
     UpdateResource R now ord oldObj newObj k w"
| "apply_event R (DeleteEvent now ord obj) k w = DeleteResource R now ord obj k w"

fun run_events ::
  "'r K8sResource \<Rightarrow> 'a event list \<Rightarrow> ('a, 'r) K8sStore \<Rightarrow> world
     \<Rightarrow> unit outcome \<times> ('a, 'r) K8sStore \<times> world" where
  "run_events R [] k w = (Return (), k, w)"
| "run_events R (ev # evs) k w =
     (case apply_event R ev k w of
        (Panic, k1, w1) \<Rightarrow> (Panic, k1, w1)
      | (Return u, k1, w1) \<Rightarrow> run_events R evs k1 w1)"

subsection \<open>Vocabulary of the properties\<close>

text \<open>
  \<open>throttled now k\<close>: a dump requested at \<open>now\<close> is skipped. \<open>dump_text\<close>: the header
  followed by the rendered records, in the order of the iteration. \<open>touches i w w'\<close>: the
  two worlds have the same directory entries and differ at most in the content of inode
  \<open>i\<close>. \<open>synced h w\<close>: the offset of the open file is the end of its content.
  \<open>fs_separate k w\<close>: the scratch path and the destination path are different paths and
  do not name the same file, and the destination's inode is an allocated one.
\<close>

definition throttled :: "int \<Rightarrow> ('a, 'r) K8sStore \<Rightarrow> bool" where
  "throttled now k = (time_Sub now (lastFullDump k) < TimeBetweenFullDump (storeConfig k))"

definition dump_text :: "'r K8sResource \<Rightarrow> string list \<Rightarrow> ('a, 'r) K8sStore \<Rightarrow> string" where
  "dump_text R ord k = header k @ concat (map (ToString R) (range_values (data k) ord))"

definition touches :: "nat \<Rightarrow> world \<Rightarrow> world \<Rightarrow> bool" where
  "touches i w w' =
     (paths w' = paths w \<and> next_inode w' = next_inode w \<and>
      (\<forall>j. j \<noteq> i \<longrightarrow> inodes w' j = inodes w j))"

definition synced :: "file_handle \<Rightarrow> world \<Rightarrow> bool" where
  "synced h w = (h_pos h = length (inodes w (h_inode h)))"

definition fs_separate :: "('a, 'r) K8sStore \<Rightarrow> world \<Rightarrow> bool" where
  "fs_separate k w =
     (tempFileName k \<noteq> destFile k \<and>
      (case paths w (destFile k) of
         None \<Rightarrow> True
       | Some d \<Rightarrow> d < next_inode w \<and> paths w (tempFileName k) \<noteq> Some d))"

text \<open>
  \<open>files_ok k w\<close>: every directory entry names an allocated inode, and the scratch
  path and the destination path are different paths that do not name the same file.
\<close>

definition files_ok :: "('a, 'r) K8sStore \<Rightarrow> world \<Rightarrow> bool" where
  "files_ok k w =
     ((\<forall>p i. paths w p = Some i \<longrightarrow> i < next_inode w) \<and>
      tempFileName k \<noteq> destFile k \<and>
      (\<forall>d. paths w (destFile k) = Some d \<longrightarrow> paths w (tempFileName k) \<noteq> Some d))"

text \<open>
  The file is read as lines: \<open>file_lines\<close> cuts a text at its newlines, \<open>is_line s\<close>
  says that \<open>s\<close> is one line with its newline at the end, and nowhere else.
\<close>

definition newline :: char where
  "newline = CHR 0x0A"

fun file_lines :: "string \<Rightarrow> string list" where
  "file_lines [] = []"
| "file_lines (c # cs) =
     (if c = newline then [] # file_lines cs
      else (case file_lines cs of [] \<Rightarrow> [[c]] | l # ls \<Rightarrow> (c # l) # ls))"

definition is_line :: "string \<Rightarrow> bool" where
  "is_line s = (s \<noteq> [] \<and> last s = newline \<and> newline \<notin> set (butlast s))"

subsection \<open>A store of pods, for the examples\<close>

text \<open>
  A record is the text of its line, rendered by adding the newline; it has changed when
  it differs from the entry of the map. The worlds of the examples start empty.
\<close>

definition pod_ops :: "string K8sResource" where
  "pod_ops = \<lparr>ToString = (\<lambda>r. r @ [newline]), HasChanged = (\<lambda>r old. old \<noteq> Some r)\<rparr>"

definition pod :: "string \<Rightarrow> string \<Rightarrow> unit k8s_object" where
  "pod ns n = \<lparr>Namespace = ns, Name = n, body = ()\<rparr>"

definition pod_cfg :: "(unit, string) watchConfig" where
  "pod_cfg =
     \<lparr>cfg_resourceCtor = (\<lambda>obj. Namespace obj @ '' '' @ Name obj),
      cfg_resourceName = ''pods'',
      cfg_header = ''Namespace Name'' @ [newline]\<rparr>"

definition pod_storeConfig :: StoreConfig where
  "pod_storeConfig = \<lparr>Cluster = ''c'', CacheDir = ''/tmp'', TimeBetweenFullDump = 10\<rparr>"

definition slash_join :: "string \<Rightarrow> string \<Rightarrow> string" where
  "slash_join a b = a @ ''/'' @ b"

definition empty_world :: world where
  "empty_world =
     \<lparr>paths = Map.empty, inodes = (\<lambda>i. []), next_inode = 0, faults = [], warnings = []\<rparr>"

text \<open>The store and the world that \<open>NewK8sStore\<close> returns in the empty world.\<close>

definition pod_store :: "(unit, string) K8sStore" where
  "pod_store =
     \<lparr>data = Map.empty,
      resourceCtor = cfg_resourceCtor pod_cfg,
      header = ''Namespace Name'' @ [newline],
      resourceName = ''pods'',
      destFile = ''/tmp/c/pods'',
      tempFileName = ''/tmp/c/pods_'',
      currentFile = \<lparr>h_inode = 0, h_pos = 0, h_closed = False\<rparr>,
      lastFullDump = 0,
      storeConfig = pod_storeConfig,
      firstWrite = True\<rparr>"

definition pod_world :: world where
  "pod_world =
     \<lparr>paths = [''/tmp/c/pods_'' \<mapsto> 0], inodes = (\<lambda>i. []), next_inode = 1, faults = [],
      warnings = []\<rparr>"

text \<open>
  The store and the world after the informer's first list, an empty one, at time 50: the
  destination file holds the header.
\<close>

definition served_store :: "(unit, string) K8sStore" where
  "served_store =
     pod_store\<lparr>currentFile := \<lparr>h_inode = 0, h_pos = 15, h_closed = False\<rparr>,
               lastFullDump := 50\<rparr>"

definition served_world :: world where
  "served_world =
     \<lparr>paths = [''/tmp/c/pods'' \<mapsto> 0],
      inodes = (\<lambda>i. [])(0 := ''Namespace Name'' @ [newline]),
      next_inode = 1, faults = [], warnings = []\<rparr>"

text \<open>
  The scenario of the specification: a list, an add, a delete inside the throttle
  interval; and the store and the world it leaves when run from the fresh store.
\<close>

definition scenario_events :: "unit event list" where
  "scenario_events =
     [ListEvent 100 [''a_x''] [pod ''a'' ''x''],
      AddEvent (pod ''a'' ''y''),
      DeleteEvent 105 [''a_y''] (ObjectMetaAccessor (pod ''a'' ''x''))]"

definition scenario_store :: "(unit, string) K8sStore" where
  "scenario_store =
     pod_store\<lparr>data := [''a_y'' \<mapsto> ''a y''],
               currentFile := \<lparr>h_inode = 0, h_pos = 34, h_closed = False\<rparr>,
               lastFullDump := 100,
               firstWrite := False\<rparr>"

definition scenario_world :: world where
  "scenario_world =
     \<lparr>paths = [''/tmp/c/pods'' \<mapsto> 0],
      inodes = (\<lambda>i. [])(0 := ''Namespace Name'' @ [newline] @ ''a x'' @ [newline]
                               @ ''Namespace Name'' @ [newline]),
      next_inode = 1, faults = [],
      warnings = [(''Error when appending new object to current state'', ErrNotExist)]\<rparr>"

section \<open>Properties\<close>

subsection \<open>Evaluation\<close>

lemmas io_defs = next_fault_def os_MkdirAll_def os_Create_def file_WriteString_def
  write_at_def file_Sync_def file_Close_def os_Rename_def glog_Warningf_def read_file_def
  bufio_NewWriter_def bw_Available_def defaultBufSize_def bw_Flush_def bw_WriteString.simps
  time_Sub_def maxDuration_def minDuration_def

lemmas store_defs = NewK8sStore_def DumpFullState_def AppendNewObject_def
  log_dump_result_def AddResourceList_def AddResource_def delete_key_def DeleteResource_def
  UpdateResource_def range_values_def List.map_filter_def resourceKey_def

lemmas example_defs = pod_ops_def pod_def pod_cfg_def pod_storeConfig_def slash_join_def
  empty_world_def pod_store_def pod_world_def newline_def

lemmas served_defs = served_store_def served_world_def

lemma NewK8sStore_pod:
  "NewK8sStore slash_join pod_cfg pod_storeConfig empty_world = (Inr pod_store, pod_world)"
  by (simp add: io_defs store_defs example_defs fun_eq_iff)

lemma AddResourceList_pod:
  "AddResourceList pod_ops 50 [] [] pod_store pod_world = (Return (), served_store, served_world)"
  by (simp add: io_defs store_defs example_defs served_store_def served_world_def fun_eq_iff)

subsection \<open>System calls and the buffered writer\<close>

lemma touches_refl: "touches i w w"
  by (simp add: touches_def)

lemma touches_trans: "touches i w w1 \<Longrightarrow> touches i w1 w2 \<Longrightarrow> touches i w w2"
  by (simp add: touches_def)

lemma next_fault_frame:
  "next_fault w = (f, w1) \<Longrightarrow>
     paths w1 = paths w \<and> inodes w1 = inodes w \<and> next_inode w1 = next_inode w \<and>
     warnings w1 = warnings w"
  by (auto simp: next_fault_def split: list.splits)


lemma write_at_end: "write_at c (length c) s = c @ s"
  by (simp add: write_at_def)

lemma file_WriteString_frame:
  assumes "file_WriteString h s w = (e, h1, w1)"
  shows "touches (h_inode h) w w1 \<and> h_inode h1 = h_inode h \<and> h_closed h1 = h_closed h"
proof (cases "h_closed h")
  case True
  with assms show ?thesis by (simp add: file_WriteString_def touches_refl)
next
  case False
  obtain f w0 where nf: "next_fault w = (f, w0)" by (cases "next_fault w")
  from next_fault_frame [OF nf] assms False nf show ?thesis
    by (cases f) (auto simp: file_WriteString_def touches_def)
qed

lemma file_WriteString_ok:
  assumes "file_WriteString h s w = (None, h1, w1)" and "synced h w"
  shows "inodes w1 (h_inode h) = inodes w (h_inode h) @ s \<and> synced h1 w1"
proof -
  from assms(1) have nc: "\<not> h_closed h"
    by (auto simp: file_WriteString_def split: if_splits)
  obtain f w0 where nf: "next_fault w = (f, w0)" by (cases "next_fault w")
  from next_fault_frame [OF nf] assms nc nf show ?thesis
    by (cases f) (auto simp: file_WriteString_def synced_def write_at_end)
qed


lemma bw_Flush_frame:
  assumes "bw_Flush b h w = (e, b1, h1, w1)"
  shows "touches (h_inode h) w w1 \<and> h_inode h1 = h_inode h \<and> h_closed h1 = h_closed h
         \<and> e = bw_err b1"
proof -
  obtain e' h' w' where ws: "file_WriteString h (bw_buf b) w = (e', h', w')"
    by (cases "file_WriteString h (bw_buf b) w")
  from file_WriteString_frame [OF ws] assms ws show ?thesis
    by (auto simp: bw_Flush_def touches_refl split: option.splits if_splits)
qed

lemma bw_Flush_ok:
  assumes "bw_Flush b h w = (e, b1, h1, w1)" and "bw_err b1 = None" and "synced h w"
  shows "bw_err b = None \<and> bw_buf b1 = [] \<and> synced h1 w1
         \<and> inodes w1 (h_inode h) = inodes w (h_inode h) @ bw_buf b"
proof -
  obtain e' h' w' where ws: "file_WriteString h (bw_buf b) w = (e', h', w')"
    by (cases "file_WriteString h (bw_buf b) w")
  show ?thesis
  proof (cases e')
    case None
    with file_WriteString_ok [of h "bw_buf b" w h' w'] ws assms show ?thesis
      by (auto simp: bw_Flush_def split: option.splits if_splits)
  next
    case (Some a)
    with ws assms show ?thesis
      by (auto simp: bw_Flush_def split: option.splits if_splits)
  qed
qed


lemma bw_WriteString_frame:
  "bw_WriteString b h s w = (e, b', h', w') \<Longrightarrow>
     touches (h_inode h) w w' \<and> h_inode h' = h_inode h \<and> h_closed h' = h_closed h
     \<and> e = bw_err b'"
proof (induction b h s w rule: bw_WriteString.induct)
  case (1 b h s w)
  show ?case
  proof (cases "bw_Available b < length s \<and> bw_err b = None")
    case True
    obtain e1 b1 h1 w1 where
      fl: "bw_Flush (b\<lparr>bw_buf := bw_buf b @ take (bw_Available b) s\<rparr>) h w = (e1, b1, h1, w1)"
      by (metis prod_cases4)
    from "1.prems" True fl
    have rec: "bw_WriteString b1 h1 (drop (bw_Available b) s) w1 = (e, b', h', w')"
      by (simp add: bw_WriteString.simps [of b h s w])
    from "1.IH" [OF True fl [symmetric] refl refl rec] bw_Flush_frame [OF fl]
    show ?thesis by (auto intro: touches_trans)
  next
    case False
    with "1.prems" show ?thesis
      by (auto simp: bw_WriteString.simps [of b h s w] touches_refl split: option.splits)
  qed
qed

lemma bw_WriteString_ok:
  "bw_WriteString b h s w = (e, b', h', w') \<Longrightarrow> bw_err b' = None \<Longrightarrow> synced h w \<Longrightarrow>
     bw_err b = None \<and> synced h' w'
     \<and> inodes w' (h_inode h) @ bw_buf b' = inodes w (h_inode h) @ bw_buf b @ s"
proof (induction b h s w rule: bw_WriteString.induct)
  case (1 b h s w)
  show ?case
  proof (cases "bw_Available b < length s \<and> bw_err b = None")
    case True
    obtain e1 b1 h1 w1 where
      fl: "bw_Flush (b\<lparr>bw_buf := bw_buf b @ take (bw_Available b) s\<rparr>) h w = (e1, b1, h1, w1)"
      by (metis prod_cases4)
    from "1.prems" True fl
    have rec: "bw_WriteString b1 h1 (drop (bw_Available b) s) w1 = (e, b', h', w')"
      by (simp add: bw_WriteString.simps [of b h s w])
    have hi: "h_inode h1 = h_inode h" using bw_Flush_frame [OF fl] by simp
    have synced1: "bw_err b1 = None \<Longrightarrow> synced h1 w1
        \<and> inodes w1 (h_inode h) = inodes w (h_inode h) @ bw_buf b @ take (bw_Available b) s
        \<and> bw_buf b1 = []"
      using bw_Flush_ok [OF fl _ "1.prems"(3)] by simp
    have e1: "bw_err b1 = None"
    proof (rule ccontr)
      assume "bw_err b1 \<noteq> None"
      with rec "1.prems"(2) show False
        by (auto simp: bw_WriteString.simps [of b1 h1] split: option.splits if_splits)
    qed
    from "1.IH" [OF True fl [symmetric] refl refl rec "1.prems"(2)] synced1 [OF e1] hi True
    show ?thesis by simp
  next
    case False
    with "1.prems" show ?thesis
      by (auto simp: bw_WriteString.simps [of b h s w] split: option.splits)
  qed
qed


lemma write_records_frame:
  "write_records R b h vs w = (e, b', h', w') \<Longrightarrow>
     touches (h_inode h) w w' \<and> h_inode h' = h_inode h \<and> h_closed h' = h_closed h"
proof (induction vs arbitrary: b h w)
  case Nil
  then show ?case by (simp add: touches_refl)
next
  case (Cons v vs)
  obtain e1 b1 h1 w1 where ws: "bw_WriteString b h (ToString R v) w = (e1, b1, h1, w1)"
    by (metis prod_cases4)
  show ?case
  proof (cases e1)
    case None
    with Cons.prems ws have "write_records R b1 h1 vs w1 = (e, b', h', w')" by simp
    from Cons.IH [OF this] bw_WriteString_frame [OF ws] show ?thesis
      by (auto intro: touches_trans)
  next
    case (Some a)
    with Cons.prems ws have "b' = b1 \<and> h' = h1 \<and> w' = w1" by simp
    with bw_WriteString_frame [OF ws] show ?thesis by simp
  qed
qed

lemma write_records_ok:
  "write_records R b h vs w = (e, b', h', w') \<Longrightarrow> bw_err b' = None \<Longrightarrow> synced h w \<Longrightarrow>
     bw_err b = None \<and> synced h' w'
     \<and> inodes w' (h_inode h) @ bw_buf b'
         = inodes w (h_inode h) @ bw_buf b @ concat (map (ToString R) vs)"
proof (induction vs arbitrary: b h w)
  case Nil
  then show ?case by simp
next
  case (Cons v vs)
  obtain e1 b1 h1 w1 where ws: "bw_WriteString b h (ToString R v) w = (e1, b1, h1, w1)"
    by (metis prod_cases4)
  have fr: "h_inode h1 = h_inode h" "e1 = bw_err b1"
    using bw_WriteString_frame [OF ws] by simp_all
  show ?case
  proof (cases e1)
    case None
    with Cons.prems ws have rec: "write_records R b1 h1 vs w1 = (e, b', h', w')" by simp
    from None fr have b1: "bw_err b1 = None" by simp
    from bw_WriteString_ok [OF ws b1 Cons.prems(3)]
    have s1: "synced h1 w1" and rest: "bw_err b = None"
      "inodes w1 (h_inode h) @ bw_buf b1 = inodes w (h_inode h) @ bw_buf b @ ToString R v"
      by simp_all
    from Cons.IH [OF rec Cons.prems(2) s1] fr rest show ?thesis by simp
  next
    case (Some a)
    with Cons.prems ws have "b' = b1" by simp
    with Some fr Cons.prems(2) show ?thesis by simp
  qed
qed


lemma os_Create_ok:
  assumes "os_Create p w = (Inr tf, w1)"
  shows "paths w1 p = Some (h_inode tf) \<and> inodes w1 (h_inode tf) = [] \<and> synced tf w1
         \<and> \<not> h_closed tf
         \<and> (\<forall>q. q \<noteq> p \<longrightarrow> paths w1 q = paths w q)
         \<and> (\<forall>j. j \<noteq> h_inode tf \<longrightarrow> inodes w1 j = inodes w j)
         \<and> (case paths w p of Some i \<Rightarrow> h_inode tf = i | None \<Rightarrow> h_inode tf = next_inode w)"
proof -
  obtain f w0 where nf: "next_fault w = (f, w0)" by (cases "next_fault w")
  from next_fault_frame [OF nf] assms nf show ?thesis
    by (auto simp: os_Create_def synced_def split: option.splits)
qed

lemma os_Create_fail:
  assumes "os_Create p w = (Inl err, w1)"
  shows "paths w1 = paths w \<and> inodes w1 = inodes w \<and> faults w \<noteq> []"
proof -
  obtain f w0 where nf: "next_fault w = (f, w0)" by (cases "next_fault w")
  from next_fault_frame [OF nf] assms nf show ?thesis
    by (auto simp: os_Create_def next_fault_def split: option.splits list.splits)
qed


lemma file_Sync_frame:
  assumes "file_Sync h w = (e, w1)"
  shows "paths w1 = paths w \<and> inodes w1 = inodes w \<and> next_inode w1 = next_inode w"
proof -
  obtain f w0 where nf: "next_fault w = (f, w0)" by (cases "next_fault w")
  from next_fault_frame [OF nf] assms nf show ?thesis
    by (auto simp: file_Sync_def split: option.splits if_splits)
qed


lemma os_Rename_fail:
  assumes "os_Rename old new w = (Some e, w1)"
  shows "paths w1 = paths w \<and> inodes w1 = inodes w \<and> next_inode w1 = next_inode w"
proof -
  obtain f w0 where nf: "next_fault w = (f, w0)" by (cases "next_fault w")
  from next_fault_frame [OF nf] assms nf show ?thesis
    by (auto simp: os_Rename_def split: option.splits)
qed

lemma os_Rename_ok:
  assumes "os_Rename old new w = (None, w1)"
  shows "\<exists>i. paths w old = Some i \<and> paths w1 = ((paths w)(old := None))(new \<mapsto> i)
           \<and> inodes w1 = inodes w \<and> next_inode w1 = next_inode w"
proof -
  obtain f w0 where nf: "next_fault w = (f, w0)" by (cases "next_fault w")
  from next_fault_frame [OF nf] assms nf show ?thesis
    by (auto simp: os_Rename_def split: option.splits)
qed


lemma DumpFullState_skip:
  "throttled now k \<Longrightarrow> DumpFullState R now ord k w = (Return None, k, w)"
  by (simp add: DumpFullState_def throttled_def)

lemma DumpFullState_stages:
  assumes "DumpFullState R now ord k w = (Return None, k', w')" and "\<not> throttled now k"
  obtains tf w1 e0 b1 tf1 w2 b2 tf2 w3 b3 tf3 w4 w5 where
    "os_Create (tempFileName k) w = (Inr tf, w1)"
    "bw_WriteString bufio_NewWriter tf (header k) w1 = (e0, b1, tf1, w2)"
    "write_records R b1 tf1 (range_values (data k) ord) w2 = (None, b2, tf2, w3)"
    "bw_Flush b2 tf2 w3 = (None, b3, tf3, w4)"
    "file_Sync tf3 w4 = (None, w5)"
    "os_Rename (tempFileName k) (destFile k) w5 = (None, w')"
    "k' = k\<lparr>lastFullDump := now, currentFile := tf3\<rparr>"
  using assms unfolding DumpFullState_def throttled_def
  by (auto split: prod.splits sum.splits option.splits if_splits)

subsection \<open>DumpFullState\<close>

lemma DumpFullState_ok:
  assumes res: "DumpFullState R now ord k w = (Return None, k', w')"
    and nt: "\<not> throttled now k"
  shows "read_file w' (destFile k) = Some (dump_text R ord k)
         \<and> k' = k\<lparr>lastFullDump := now, currentFile := currentFile k'\<rparr>
         \<and> paths w' (destFile k) = Some (h_inode (currentFile k'))
         \<and> synced (currentFile k') w' \<and> \<not> h_closed (currentFile k')"
proof -
  from res nt obtain tf w1 e0 b1 tf1 w2 b2 tf2 w3 b3 tf3 w4 w5 where
    cr: "os_Create (tempFileName k) w = (Inr tf, w1)" and
    hd: "bw_WriteString bufio_NewWriter tf (header k) w1 = (e0, b1, tf1, w2)" and
    lp: "write_records R b1 tf1 (range_values (data k) ord) w2 = (None, b2, tf2, w3)" and
    fl: "bw_Flush b2 tf2 w3 = (None, b3, tf3, w4)" and
    sy: "file_Sync tf3 w4 = (None, w5)" and
    rn: "os_Rename (tempFileName k) (destFile k) w5 = (None, w')" and
    k': "k' = k\<lparr>lastFullDump := now, currentFile := tf3\<rparr>"
    by (rule DumpFullState_stages)
  let ?i = "h_inode tf"
  note c = os_Create_ok [OF cr]
  note f1 = bw_WriteString_frame [OF hd]
  note f2 = write_records_frame [OF lp]
  note f3 = bw_Flush_frame [OF fl]
  have i: "h_inode tf1 = ?i" "h_inode tf2 = ?i" "h_inode tf3 = ?i"
    using f1 f2 f3 by simp_all
  have cl: "\<not> h_closed tf3" using c f1 f2 f3 by simp
  have e3: "bw_err b3 = None" using f3 by simp
  from bw_Flush_ok [OF fl e3]
  have s3: "synced tf2 w3 \<Longrightarrow> bw_err b2 = None \<and> synced tf3 w4
      \<and> inodes w4 ?i = inodes w3 ?i @ bw_buf b2"
    by (simp add: i)
  from write_records_ok [OF lp]
  have s2: "bw_err b2 = None \<Longrightarrow> synced tf1 w2 \<Longrightarrow> bw_err b1 = None \<and> synced tf2 w3
      \<and> inodes w3 ?i @ bw_buf b2
          = inodes w2 ?i @ bw_buf b1 @ concat (map (ToString R) (range_values (data k) ord))"
    by (simp add: i)
  from bw_WriteString_ok [OF hd]
  have s1: "bw_err b1 = None \<Longrightarrow> synced tf1 w2
      \<and> inodes w2 ?i @ bw_buf b1 = inodes w1 ?i @ header k"
    using c by (simp add: bufio_NewWriter_def)
  have e2: "bw_err b2 = None"
  proof (rule ccontr)
    assume "bw_err b2 \<noteq> None"
    with fl show False by (auto simp: bw_Flush_def)
  qed
  have e1: "bw_err b1 = None"
  proof (rule ccontr)
    assume ne: "bw_err b1 \<noteq> None"
    have "bw_err b2 \<noteq> None"
    proof (cases "range_values (data k) ord")
      case Nil
      with lp ne show ?thesis by auto
    next
      case (Cons v vs)
      from ne have "fst (bw_WriteString b1 tf1 (ToString R v) w2) \<noteq> None"
        by (auto simp: bw_WriteString.simps [of b1 tf1])
      with lp Cons show ?thesis by (auto split: prod.splits option.splits)
    qed
    with e2 show False by simp
  qed
  from s1 [OF e1] have t1: "synced tf1 w2"
    and c1: "inodes w2 ?i @ bw_buf b1 = inodes w1 ?i @ header k" by simp_all
  from s2 [OF e2 t1] have t2: "synced tf2 w3"
    and c2: "inodes w3 ?i @ bw_buf b2
          = inodes w2 ?i @ bw_buf b1 @ concat (map (ToString R) (range_values (data k) ord))"
    by simp_all
  from s3 [OF t2] have t3: "synced tf3 w4" and c3: "inodes w4 ?i = inodes w3 ?i @ bw_buf b2"
    by simp_all
  have content: "inodes w4 ?i = dump_text R ord k"
    using c1 c2 c3 c by (simp add: dump_text_def)
  have p4: "paths w4 (tempFileName k) = Some ?i"
    using c f1 f2 f3 by (simp add: touches_def)
  from file_Sync_frame [OF sy] have w5: "paths w5 = paths w4" "inodes w5 = inodes w4"
    by simp_all
  from os_Rename_ok [OF rn] p4 w5
  have w': "paths w' (destFile k) = Some ?i" "inodes w' = inodes w4"
    by auto
  from t3 w' i have "synced tf3 w'" by (simp add: synced_def)
  with w' content k' i cl show ?thesis by (simp add: read_file_def)
qed


lemma DumpFullState_store:
  assumes "DumpFullState R now ord k w = (r, k', w')" and "\<not> throttled now k"
  shows "lastFullDump k' = now \<and> data k' = data k \<and> firstWrite k' = firstWrite k
         \<and> destFile k' = destFile k \<and> tempFileName k' = tempFileName k
         \<and> storeConfig k' = storeConfig k \<and> header k' = header k"
  using assms unfolding DumpFullState_def throttled_def
  by (auto split: prod.splits sum.splits option.splits if_splits)

lemma DumpFullState_failure:
  assumes res: "DumpFullState R now ord k w = (r, k', w')" and ne: "r \<noteq> Return None"
    and sep: "fs_separate k w"
  shows "read_file w' (destFile k) = read_file w (destFile k)
         \<and> (r = Panic \<or> (\<exists>msg e. r = Return (Some (Wrapped msg e))))"
proof -
  from res ne have nt: "\<not> throttled now k"
    by (auto simp: DumpFullState_def throttled_def)
  obtain c w1 where cr: "os_Create (tempFileName k) w = (c, w1)"
    by (cases "os_Create (tempFileName k) w")
  show ?thesis
  proof (cases c)
    case (Inl err)
    with res nt cr have "r = Panic" "w' = w1"
      by (simp_all add: DumpFullState_def throttled_def)
    with os_Create_fail [of "tempFileName k" w err w1] cr Inl show ?thesis
      by (simp add: read_file_def)
  next
    case (Inr tf)
    let ?i = "h_inode tf"
    note c = os_Create_ok [OF cr [unfolded Inr]]
    obtain e0 b1 tf1 w2 where
      hd: "bw_WriteString bufio_NewWriter tf (header k) w1 = (e0, b1, tf1, w2)"
      by (metis prod_cases4)
    obtain e2 b2 tf2 w3 where
      lp: "write_records R b1 tf1 (range_values (data k) ord) w2 = (e2, b2, tf2, w3)"
      by (metis prod_cases4)
    obtain e3 b3 tf3 w4 where fl: "bw_Flush b2 tf2 w3 = (e3, b3, tf3, w4)"
      by (metis prod_cases4)
    obtain e4 w5 where sy: "file_Sync tf3 w4 = (e4, w5)" by (cases "file_Sync tf3 w4")
    obtain e5 w6 where rn: "os_Rename (tempFileName k) (destFile k) w5 = (e5, w6)"
      by (cases "os_Rename (tempFileName k) (destFile k) w5")
    note f1 = bw_WriteString_frame [OF hd]
    note f2 = write_records_frame [OF lp]
    note f3 = bw_Flush_frame [OF fl]
    note f4 = file_Sync_frame [OF sy]
    have t2: "touches ?i w1 w2" using f1 by simp
    have t3: "touches ?i w1 w3" using t2 f1 f2 by (auto intro: touches_trans)
    have t4: "touches ?i w1 w4" using t3 f1 f2 f3 by (auto intro: touches_trans)
    have t5: "touches ?i w1 w5" using t4 f4 by (simp add: touches_def)
    have t6: "e5 \<noteq> None \<Longrightarrow> touches ?i w1 w6"
      using t5 os_Rename_fail [of "tempFileName k" "destFile k" w5 _ w6] rn
      by (auto simp: touches_def)
    have w': "touches ?i w1 w'" and wr: "\<exists>msg e. r = Return (Some (Wrapped msg e))"
      using res nt ne cr Inr hd lp fl sy rn t2 t3 t4 t5 t6
      by (auto simp: DumpFullState_def throttled_def split: option.splits)
    have pd: "paths w1 (destFile k) = paths w (destFile k)"
      using c sep by (auto simp: fs_separate_def)
    have pd': "paths w' (destFile k) = paths w (destFile k)"
      using pd w' by (simp add: touches_def)
    have nd: "d \<noteq> ?i" if "paths w (destFile k) = Some d" for d
      using that c sep by (auto simp: fs_separate_def split: option.splits)
    have "inodes w' d = inodes w d" if "paths w (destFile k) = Some d" for d
      using nd [OF that] c w' by (simp add: touches_def)
    with pd' have "read_file w' (destFile k) = read_file w (destFile k)"
      by (cases "paths w (destFile k)") (simp_all add: read_file_def)
    with wr show ?thesis by simp
  qed
qed

subsection \<open>The cache under AppendNewObject and AddResource\<close>

lemma AppendNewObject_store:
  assumes "AppendNewObject R r k w = (res, k', w')"
  shows "data k' = data k \<and> resourceCtor k' = resourceCtor k \<and> destFile k' = destFile k
         \<and> tempFileName k' = tempFileName k \<and> header k' = header k
         \<and> storeConfig k' = storeConfig k \<and> lastFullDump k' = lastFullDump k"
  using assms unfolding AppendNewObject_def
  by (auto split: prod.splits option.splits if_splits)

lemma AddResource_store:
  assumes "AddResource R obj k w = (k', w')"
  shows "data k' = (data k)(resourceKey obj \<mapsto> resourceCtor k obj)
         \<and> resourceCtor k' = resourceCtor k"
proof -
  obtain res k1 w1 where ap: "AppendNewObject R (resourceCtor k obj)
      (k\<lparr>data := (data k)(resourceKey obj \<mapsto> resourceCtor k obj)\<rparr>) w = (res, k1, w1)"
    by (metis prod_cases3)
  from assms ap have "k' = k1" by (auto simp: AddResource_def split: option.splits)
  with AppendNewObject_store [OF ap] show ?thesis by simp
qed

text \<open>
  Claim C9. \<open>resourceKey\<close> joins namespace and name with one underscore and is not
  injective on the pairs: the namespace \<open>a\<close> with the name \<open>b_c\<close> and the namespace
  \<open>a_b\<close> with the name \<open>c\<close> are different pairs with the same key \<open>a_b_c\<close>. Added one
  after the other to any store, the two objects share one entry of the cache: the entry
  of the key holds the record of the second, and nothing is reported.
\<close>

theorem resourceKey_not_injective:
  "resourceKey \<lparr>Namespace = ''a'', Name = ''b_c'', body = x\<rparr>
     = resourceKey \<lparr>Namespace = ''a_b'', Name = ''c'', body = y\<rparr>
   \<and> (''a'', ''b_c'') \<noteq> (''a_b'', ''c'')
   \<and> data (fst (AddResource R \<lparr>Namespace = ''a_b'', Name = ''c'', body = y\<rparr>
               (fst (AddResource R \<lparr>Namespace = ''a'', Name = ''b_c'', body = x\<rparr> k w))
               (snd (AddResource R \<lparr>Namespace = ''a'', Name = ''b_c'', body = x\<rparr> k w))))
       = (data k)(''a_b_c'' \<mapsto> resourceCtor k \<lparr>Namespace = ''a_b'', Name = ''c'', body = y\<rparr>)"
proof -
  let ?o1 = "\<lparr>Namespace = ''a'', Name = ''b_c'', body = x\<rparr>"
  let ?o2 = "\<lparr>Namespace = ''a_b'', Name = ''c'', body = y\<rparr>"
  obtain k1 w1 where a1: "AddResource R ?o1 k w = (k1, w1)" by (cases "AddResource R ?o1 k w")
  obtain k2 w2 where a2: "AddResource R ?o2 k1 w1 = (k2, w2)" by (cases "AddResource R ?o2 k1 w1")
  have k1: "resourceKey ?o1 = ''a_b_c''" and k2: "resourceKey ?o2 = ''a_b_c''"
    by (simp_all add: resourceKey_def)
  from AddResource_store [OF a1] AddResource_store [OF a2] k1 k2
  have "data k2 = (data k)(''a_b_c'' \<mapsto> resourceCtor k ?o2)" by simp
  with a1 a2 k1 k2 show ?thesis by simp
qed

text \<open>
  Claim C8. When \<open>AppendNewObject\<close> returns an error, the map of the store it returns is
  the map it was called with: no path of the append assigns to \<open>data\<close>. \<open>AddResource\<close>
  has put the new record into the map before it appends, so whatever the append
  returns, the map after \<open>AddResource\<close> is the old one with the new entry.
\<close>

theorem append_failure_keeps_cache:
  "(AppendNewObject R r k w = (Some err, k', w') \<longrightarrow> data k' = data k)
   \<and> (AddResource R obj k w = (k'', w'') \<longrightarrow>
        data k'' = (data k)(resourceKey obj \<mapsto> resourceCtor k obj))"
  using AppendNewObject_store [of R r k w "Some err" k' w']
    AddResource_store [of R obj k w k'' w''] by blast

text \<open>
  Witness for C8: in the fresh store of pods the header is written and the rename
  fails; the append returns the error of the rename and the map is still empty, and
  \<open>AddResource\<close> in the same world leaves the map with the one new entry.
\<close>

theorem append_failure_keeps_cache_witness:
  "fst (AppendNewObject pod_ops ''a y'' pod_store (pod_world\<lparr>faults := [None, Some 0]\<rparr>))
     = Some (SysErr ''rename'')
   \<and> data (fst (snd (AppendNewObject pod_ops ''a y'' pod_store
         (pod_world\<lparr>faults := [None, Some 0]\<rparr>)))) = data pod_store
   \<and> data (fst (AddResource pod_ops (pod ''a'' ''y'') pod_store
         (pod_world\<lparr>faults := [None, Some 0]\<rparr>)))
       = (data pod_store)(''a_y'' \<mapsto> ''a y'')"
proof -
  let ?w = "pod_world\<lparr>faults := [None, Some 0]\<rparr>"
  let ?A = "AppendNewObject pod_ops ''a y'' pod_store ?w"
  let ?B = "AddResource pod_ops (pod ''a'' ''y'') pod_store ?w"
  have f: "fst ?A = Some (SysErr ''rename'')"
    by (simp add: io_defs store_defs example_defs)
  then have e: "?A = (Some (SysErr ''rename''), fst (snd ?A), snd (snd ?A))"
    by (metis prod.collapse)
  have b: "?B = (fst ?B, snd ?B)" by simp
  have key: "resourceKey (pod ''a'' ''y'') = ''a_y''"
    and ctor: "resourceCtor pod_store (pod ''a'' ''y'') = ''a y''"
    by (simp_all add: resourceKey_def example_defs)
  from append_failure_keeps_cache [of pod_ops "''a y''" pod_store ?w "SysErr ''rename''"
      "fst (snd ?A)" "snd (snd ?A)" "pod ''a'' ''y''" "fst ?B" "snd ?B"] e b f key ctor
  show ?thesis by simp
qed

subsection \<open>UpdateResource\<close>

text \<open>
  Claim C7. For an update whose identity is in the cache, \<open>UpdateResource\<close> builds the
  candidate record with the constructor and asks the change predicate of the adapter,
  giving it the entry of the cache. When the predicate says changed, the call is the
  dump (\<open>DumpFullState\<close>, its error printed) of the store in which the candidate has
  replaced the entry, and the map it leaves has the candidate at the identity. When the
  predicate says unchanged, the store and the world are returned as they were: the
  entry is kept and no system call is made.
\<close>

theorem UpdateResource_present:
  assumes "data k (resourceKey newObj) = Some old"
  shows "(HasChanged R (resourceCtor k newObj) (Some old) \<longrightarrow>
            UpdateResource R now ord oldObj newObj k w
              = log_dump_result (DumpFullState R now ord
                  (k\<lparr>data := (data k)(resourceKey newObj \<mapsto> resourceCtor k newObj)\<rparr>) w)
            \<and> data (fst (snd (UpdateResource R now ord oldObj newObj k w)))
              = (data k)(resourceKey newObj \<mapsto> resourceCtor k newObj))
         \<and> (\<not> HasChanged R (resourceCtor k newObj) (Some old) \<longrightarrow>
              UpdateResource R now ord oldObj newObj k w = (Return (), k, w))"
proof -
  let ?k = "k\<lparr>data := (data k)(resourceKey newObj \<mapsto> resourceCtor k newObj)\<rparr>"
  obtain r k' w' where d: "DumpFullState R now ord ?k w = (r, k', w')"
    by (metis prod_cases3)
  have "data k' = data ?k"
  proof (cases "throttled now ?k")
    case True
    with d DumpFullState_skip [OF True, of R ord w] show ?thesis by simp
  next
    case False
    from DumpFullState_store [OF d False] show ?thesis by simp
  qed
  then have "data (fst (snd (log_dump_result (DumpFullState R now ord ?k w)))) = data ?k"
    using d by (auto simp: log_dump_result_def split: outcome.splits option.splits)
  with assms show ?thesis by (simp add: UpdateResource_def)
qed

text \<open>
  Witness for C7: with the entry \<open>a old\<close> at \<open>a_x\<close> the update of the pod \<open>a/x\<close> is a
  change, replaces the entry and rewrites the file; with the entry \<open>a x\<close> it is none.
\<close>

theorem UpdateResource_present_witness:
  "data (pod_store\<lparr>data := [''a_x'' \<mapsto> ''a old'']\<rparr>) (resourceKey (pod ''a'' ''x''))
     = Some ''a old''
   \<and> HasChanged pod_ops (resourceCtor pod_store (pod ''a'' ''x'')) (Some ''a old'')
   \<and> UpdateResource pod_ops 100 [''a_x''] (pod ''a'' ''x'') (pod ''a'' ''x'')
        (pod_store\<lparr>data := [''a_x'' \<mapsto> ''a old'']\<rparr>) pod_world
      = log_dump_result (DumpFullState pod_ops 100 [''a_x'']
          (pod_store\<lparr>data := [''a_x'' \<mapsto> ''a x'']\<rparr>) pod_world)
   \<and> data (fst (snd (UpdateResource pod_ops 100 [''a_x''] (pod ''a'' ''x'') (pod ''a'' ''x'')
        (pod_store\<lparr>data := [''a_x'' \<mapsto> ''a old'']\<rparr>) pod_world)))
      = [''a_x'' \<mapsto> ''a x'']
   \<and> read_file (snd (snd (UpdateResource pod_ops 100 [''a_x''] (pod ''a'' ''x'')
        (pod ''a'' ''x'') (pod_store\<lparr>data := [''a_x'' \<mapsto> ''a old'']\<rparr>) pod_world)))
        ''/tmp/c/pods''
      = Some (''Namespace Name'' @ [newline] @ ''a x'' @ [newline])
   \<and> data (pod_store\<lparr>data := [''a_x'' \<mapsto> ''a x'']\<rparr>) (resourceKey (pod ''a'' ''x''))
     = Some ''a x''
   \<and> \<not> HasChanged pod_ops (resourceCtor pod_store (pod ''a'' ''x'')) (Some ''a x'')
   \<and> UpdateResource pod_ops 100 [''a_x''] (pod ''a'' ''x'') (pod ''a'' ''x'')
        (pod_store\<lparr>data := [''a_x'' \<mapsto> ''a x'']\<rparr>) pod_world
      = (Return (), pod_store\<lparr>data := [''a_x'' \<mapsto> ''a x'']\<rparr>, pod_world)"
proof -
  let ?k1 = "pod_store\<lparr>data := [''a_x'' \<mapsto> ''a old'']\<rparr>"
  let ?k2 = "pod_store\<lparr>data := [''a_x'' \<mapsto> ''a x'']\<rparr>"
  have key: "resourceKey (pod ''a'' ''x'') = ''a_x''"
    and ctor: "resourceCtor pod_store (pod ''a'' ''x'') = ''a x''"
    by (simp_all add: resourceKey_def example_defs)
  have h1: "data ?k1 (resourceKey (pod ''a'' ''x'')) = Some ''a old''"
    and h2: "data ?k2 (resourceKey (pod ''a'' ''x'')) = Some ''a x''"
    by (simp_all add: key)
  have c1: "HasChanged pod_ops (resourceCtor ?k1 (pod ''a'' ''x'')) (Some ''a old'')"
    and c2: "\<not> HasChanged pod_ops (resourceCtor ?k2 (pod ''a'' ''x'')) (Some ''a x'')"
    by (simp_all add: example_defs)
  have fl: "read_file (snd (snd (log_dump_result (DumpFullState pod_ops 100 [''a_x'']
          ?k2 pod_world)))) ''/tmp/c/pods''
      = Some (''Namespace Name'' @ [newline] @ ''a x'' @ [newline])"
    by (simp add: io_defs store_defs example_defs)
  note t1 = UpdateResource_present [OF h1, of pod_ops 100 "[''a_x'']" "pod ''a'' ''x''" pod_world]
  note t2 = UpdateResource_present [OF h2, of pod_ops 100 "[''a_x'']" "pod ''a'' ''x''" pod_world]
  let ?U = "UpdateResource pod_ops 100 [''a_x''] (pod ''a'' ''x'') (pod ''a'' ''x'') ?k1
      pod_world"
  from t1 c1 have AB: "?U = log_dump_result (DumpFullState pod_ops 100 [''a_x''] ?k2 pod_world)
      \<and> data (fst (snd ?U)) = [''a_x'' \<mapsto> ''a x'']"
    by (clarsimp simp: key ctor)
  then have A: "?U = log_dump_result (DumpFullState pod_ops 100 [''a_x''] ?k2 pod_world)"
    and B: "data (fst (snd ?U)) = [''a_x'' \<mapsto> ''a x'']"
    by blast+
  from fl A have C: "read_file (snd (snd ?U)) ''/tmp/c/pods''
      = Some (''Namespace Name'' @ [newline] @ ''a x'' @ [newline])"
    by simp
  from t2 c2 have D: "UpdateResource pod_ops 100 [''a_x''] (pod ''a'' ''x'') (pod ''a'' ''x'')
      ?k2 pod_world = (Return (), ?k2, pod_world)"
    by simp
  from c1 c2 have c1': "HasChanged pod_ops (resourceCtor pod_store (pod ''a'' ''x''))
      (Some ''a old'')"
    and c2': "\<not> HasChanged pod_ops (resourceCtor pod_store (pod ''a'' ''x'')) (Some ''a x'')"
    by simp_all
  from h1 c1' A B C h2 c2' D show ?thesis by blast
qed

subsection \<open>The throttle\<close>




text \<open>
  Claim C10. \<open>DumpFullState\<close> stores the current time in \<open>lastFullDump\<close> before its
  first file operation. So when the rewrite fails (an error is returned, or the call
  panics at \<open>os.Create\<close>), the recorded time is the time of the failed call, the
  destination file is the one from before (for a scratch path that is no link to it), and
  every request less than \<open>T\<close> later is skipped, although nothing has been written.
\<close>

theorem failed_dump_advances_timestamp:
  assumes "DumpFullState R now ord k w = (r, k', w')" and "r \<noteq> Return None"
    and "time_Sub now2 now < TimeBetweenFullDump (storeConfig k)"
  shows "lastFullDump k' = now
         \<and> (fs_separate k w \<longrightarrow> read_file w' (destFile k) = read_file w (destFile k))
         \<and> DumpFullState R now2 ord2 k' w' = (Return None, k', w')"
proof -
  from assms(1,2) have nt: "\<not> throttled now k"
    by (auto simp: DumpFullState_def throttled_def)
  note st = DumpFullState_store [OF assms(1) nt]
  from st assms(3) have "throttled now2 k'" by (simp add: throttled_def)
  then have "DumpFullState R now2 ord2 k' w' = (Return None, k', w')"
    by (rule DumpFullState_skip)
  with st DumpFullState_failure [OF assms(1,2)] show ?thesis by simp
qed

text \<open>
  Witness for C10: the call at 100 fails at \<open>Sync\<close>; the file still holds the header
  alone, the recorded time is 100 and the call at 105 is skipped.
\<close>

theorem failed_dump_advances_timestamp_witness:
  "fst (DumpFullState pod_ops 100 [''a_x''] (served_store\<lparr>data := [''a_x'' \<mapsto> ''a x'']\<rparr>)
         (served_world\<lparr>faults := [None, None, Some 0]\<rparr>))
     = Return (Some (Wrapped ''Error syncing file'' (SysErr ''fsync'')))
   \<and> time_Sub 105 100 < TimeBetweenFullDump (storeConfig served_store)
   \<and> fs_separate (served_store\<lparr>data := [''a_x'' \<mapsto> ''a x'']\<rparr>)
        (served_world\<lparr>faults := [None, None, Some 0]\<rparr>)
   \<and> lastFullDump (fst (snd (DumpFullState pod_ops 100 [''a_x'']
         (served_store\<lparr>data := [''a_x'' \<mapsto> ''a x'']\<rparr>)
         (served_world\<lparr>faults := [None, None, Some 0]\<rparr>)))) = 100
   \<and> read_file (snd (snd (DumpFullState pod_ops 100 [''a_x'']
         (served_store\<lparr>data := [''a_x'' \<mapsto> ''a x'']\<rparr>)
         (served_world\<lparr>faults := [None, None, Some 0]\<rparr>)))) ''/tmp/c/pods''
       = Some (''Namespace Name'' @ [newline])
   \<and> fst (DumpFullState pod_ops 105 [''a_x'']
        (fst (snd (DumpFullState pod_ops 100 [''a_x'']
           (served_store\<lparr>data := [''a_x'' \<mapsto> ''a x'']\<rparr>)
           (served_world\<lparr>faults := [None, None, Some 0]\<rparr>))))
        (snd (snd (DumpFullState pod_ops 100 [''a_x'']
           (served_store\<lparr>data := [''a_x'' \<mapsto> ''a x'']\<rparr>)
           (served_world\<lparr>faults := [None, None, Some 0]\<rparr>))))) = Return None"
proof -
  let ?k = "served_store\<lparr>data := [''a_x'' \<mapsto> ''a x'']\<rparr>"
  let ?w = "served_world\<lparr>faults := [None, None, Some 0]\<rparr>"
  let ?D = "DumpFullState pod_ops 100 [''a_x''] ?k ?w"
  have f: "fst ?D = Return (Some (Wrapped ''Error syncing file'' (SysErr ''fsync'')))"
    by (simp add: io_defs store_defs example_defs served_store_def served_world_def)
  have h1: "?D = (fst ?D, fst (snd ?D), snd (snd ?D))" by simp
  from f have h2: "fst ?D \<noteq> Return None" by simp
  have h3: "time_Sub 105 100 < TimeBetweenFullDump (storeConfig ?k)"
    by (simp add: served_store_def example_defs io_defs)
  have h4: "fs_separate ?k ?w"
    by (simp add: fs_separate_def served_store_def served_world_def example_defs)
  have old: "read_file ?w (destFile ?k) = Some (''Namespace Name'' @ [newline])"
    and dst: "destFile ?k = ''/tmp/c/pods''"
    by (simp_all add: read_file_def served_store_def served_world_def example_defs)
  from failed_dump_advances_timestamp [OF h1 h2 h3, of "[''a_x'']"] f h3 h4 old dst
  show ?thesis by simp
qed

subsection \<open>What a dump leaves of the store\<close>

lemma DumpFullState_data:
  "data (fst (snd (DumpFullState R now ord k w))) = data k"
proof (cases "throttled now k")
  case True
  then show ?thesis by (simp add: DumpFullState_skip)
next
  case False
  obtain r k' w' where d: "DumpFullState R now ord k w = (r, k', w')" by (metis prod_cases3)
  from DumpFullState_store [OF d False] d show ?thesis by simp
qed

lemma log_dump_result_store: "fst (snd (log_dump_result x)) = fst (snd x)"
  by (auto simp: log_dump_result_def split: prod.splits outcome.splits option.splits)

lemma log_dump_result_files:
  "paths (snd (snd (log_dump_result x))) = paths (snd (snd x))
   \<and> inodes (snd (snd (log_dump_result x))) = inodes (snd (snd x))"
  by (auto simp: log_dump_result_def glog_Warningf_def
      split: prod.splits outcome.splits option.splits)


lemma resourceKey_not_Unknown: "resourceKey obj \<noteq> ''Unknown''"
proof
  assume "resourceKey obj = ''Unknown''"
  then have "set (resourceKey obj) = set ''Unknown''" by simp
  moreover have "CHR ''_'' \<in> set (resourceKey obj)" by (simp add: resourceKey_def)
  ultimately show False by simp
qed

subsection \<open>The first append after a dump\<close>

text \<open>
  Claim C1, at the scenario of the specification. A fresh store lists the pod \<open>a/x\<close>
  (the dump is performed and leaves the header and the line of \<open>x\<close> in the destination
  file), then the pod \<open>a/y\<close> is added. The claim expects the header and two record
  lines. \<open>DumpFullState\<close> has not cleared \<open>firstWrite\<close> and has renamed the scratch
  file away, so \<open>AppendNewObject\<close> takes its first-write branch: it writes the header a
  second time into the destination file, fails to rename the scratch path, which has no
  file any more, and returns that error before it writes the line of \<open>y\<close>. The cache
  holds both records; the file holds the header, the line of \<open>x\<close> and the header again.
\<close>

theorem list_then_add_repeats_header:
  "(case NewK8sStore slash_join pod_cfg pod_storeConfig empty_world of
      (Inl e, w0) \<Rightarrow> False
    | (Inr k0, w0) \<Rightarrow>
        (case AddResourceList pod_ops 100 [''a_x''] [pod ''a'' ''x''] k0 w0 of
           (r1, k1, w1) \<Rightarrow>
             r1 = Return () \<and> data k1 = [''a_x'' \<mapsto> ''a x''] \<and> firstWrite k1 \<and>
             read_file w1 (destFile k1)
               = Some (''Namespace Name'' @ [newline] @ ''a x'' @ [newline]) \<and>
             read_file w1 (tempFileName k1) = None \<and>
             (case AddResource pod_ops (pod ''a'' ''y'') k1 w1 of
                (k2, w2) \<Rightarrow>
                  data k2 = [''a_x'' \<mapsto> ''a x'', ''a_y'' \<mapsto> ''a y''] \<and>
                  read_file w2 (destFile k2)
                    = Some (''Namespace Name'' @ [newline] @ ''a x'' @ [newline]
                            @ ''Namespace Name'' @ [newline]) \<and>
                  warnings w2
                    = [(''Error when appending new object to current state'', ErrNotExist)])))"
  by (simp add: io_defs store_defs example_defs)

subsection \<open>A failing os.Create\<close>

text \<open>
  Claim C2, at a failing \<open>os.Create\<close>. The claim expects a wrapped error. The call
  panics instead: the nil file is dereferenced by \<open>tempFileName.Name()\<close> before the
  error is tested. The destination is untouched, and the time of the dump is recorded.
  For the other failures (write, flush, sync, rename) lemma \<open>DumpFullState_failure\<close>
  gives what the claim says: a wrapped error and an unchanged destination.
\<close>

theorem DumpFullState_create_failure_panics:
  "DumpFullState pod_ops 100 [''a_x''] (served_store\<lparr>data := [''a_x'' \<mapsto> ''a x'']\<rparr>)
     (served_world\<lparr>faults := [Some 0]\<rparr>)
   = (Panic, served_store\<lparr>data := [''a_x'' \<mapsto> ''a x''], lastFullDump := 100\<rparr>, served_world)"
  by (simp add: io_defs store_defs example_defs served_defs)

text \<open>
  Claim C4, at the same failure. The calls of the informer that dump do not catch the
  panic of \<open>DumpFullState\<close>: \<open>AddResourceList\<close>, \<open>DeleteResource\<close> and
  \<open>UpdateResource\<close> panic when the scratch file cannot be created.
\<close>

theorem mutations_panic_on_create_failure:
  "fst (AddResourceList pod_ops 100 [''a_x''] [pod ''a'' ''x''] served_store
          (served_world\<lparr>faults := [Some 0]\<rparr>)) = Panic
   \<and> fst (DeleteResource pod_ops 100 [] (ObjectMetaAccessor (pod ''a'' ''x''))
          (served_store\<lparr>data := [''a_x'' \<mapsto> ''a x'']\<rparr>)
          (served_world\<lparr>faults := [Some 0]\<rparr>)) = Panic
   \<and> fst (UpdateResource pod_ops 100 [''a_x''] (pod ''a'' ''x'') (pod ''a'' ''x'')
          (served_store\<lparr>data := [''a_x'' \<mapsto> ''a old'']\<rparr>)
          (served_world\<lparr>faults := [Some 0]\<rparr>)) = Panic"
  by (simp add: io_defs store_defs example_defs served_defs)

subsection \<open>DeleteResource with an argument of unknown type\<close>




subsection \<open>The file after a full rewrite\<close>

lemma run_scenario:
  "run_events pod_ops scenario_events pod_store pod_world
     = (Return (), scenario_store, scenario_world)"
  by (simp add: scenario_events_def scenario_store_def scenario_world_def
        io_defs store_defs example_defs fun_eq_iff)

lemma file_lines_cut:
  "newline \<notin> set l \<Longrightarrow> file_lines (l @ newline # rest) = l # file_lines rest"
  by (induction l) auto

lemma file_lines_is_line:
  assumes "is_line s"
  shows "file_lines (s @ rest) = butlast s # file_lines rest"
proof -
  from assms have "s = butlast s @ [newline]" and "newline \<notin> set (butlast s)"
    by (auto simp: is_line_def dest: append_butlast_last_id)
  then have "file_lines (s @ rest) = file_lines (butlast s @ newline # rest)"
    by (metis append_Cons append_Nil append_assoc)
  with \<open>newline \<notin> set (butlast s)\<close> show ?thesis by (simp add: file_lines_cut)
qed

lemma file_lines_concat:
  "\<forall>r \<in> set rs. is_line (f r) \<Longrightarrow> file_lines (concat (map f rs)) = map (\<lambda>r. butlast (f r)) rs"
  by (induction rs) (simp_all add: file_lines_is_line)

lemma range_values_dom:
  "set ord \<subseteq> dom m \<Longrightarrow> range_values m ord = map (\<lambda>key. the (m key)) ord"
  by (induction ord) (auto simp: range_values_def List.map_filter_def)

text \<open>
  Claim C5. Take the store and the world after any sequence of list, add, update and
  delete calls that returns, and a \<open>DumpFullState\<close> that is performed (not throttled)
  and returns nil. The iteration visits every identity of the cache once. With a header
  and renderings that are single lines, the destination file read as lines is the
  header followed by the rendering of the entry of each visited identity: after the
  header the file has one line for each identity of the cache and no other line, so no
  entry is written twice and no identity that has left the cache has a line. The cache
  itself is unchanged by the dump.
\<close>

theorem dump_converges_to_cache:
  assumes "run_events R evs k0 w0 = (Return (), k, w)"
    and "TimeBetweenFullDump (storeConfig k) \<le> time_Sub now (lastFullDump k)"
    and "DumpFullState R now ord k w = (Return None, k', w')"
    and "distinct ord" and "set ord = dom (data k)"
    and "is_line (header k)" and "\<forall>r \<in> ran (data k). is_line (ToString R r)"
  shows "data k' = data k
         \<and> (\<exists>c. read_file w' (destFile k') = Some c
               \<and> file_lines c
                   = butlast (header k) # map (\<lambda>key. butlast (ToString R (the (data k' key)))) ord
               \<and> mset (tl (file_lines c))
                   = image_mset (\<lambda>key. butlast (ToString R (the (data k' key))))
                       (mset_set (dom (data k'))))"
proof -
  from assms(2) have nt: "\<not> throttled now k" by (simp add: throttled_def)
  note st = DumpFullState_store [OF assms(3) nt]
  from st have d: "data k' = data k" and df: "destFile k' = destFile k" by simp_all
  let ?g = "\<lambda>key. butlast (ToString R (the (data k key)))"
  from DumpFullState_ok [OF assms(3) nt]
  have rd: "read_file w' (destFile k) = Some (dump_text R ord k)" by simp
  have rv: "range_values (data k) ord = map (\<lambda>key. the (data k key)) ord"
    using assms(5) by (simp add: range_values_dom)
  have lines: "\<forall>r \<in> set (range_values (data k) ord). is_line (ToString R r)"
    using assms(5,7) by (auto simp: rv ran_def)
  have "file_lines (dump_text R ord k)
      = butlast (header k)
        # map (\<lambda>r. butlast (ToString R r)) (range_values (data k) ord)"
    unfolding dump_text_def
    by (simp only: file_lines_is_line [OF assms(6)] file_lines_concat [OF lines])
  then have fl: "file_lines (dump_text R ord k) = butlast (header k) # map ?g ord"
    by (simp add: rv comp_def)
  have "mset (map ?g ord) = image_mset ?g (mset_set (dom (data k)))"
    using assms(4,5) by (metis mset_map mset_set_set)
  with fl rd d df show ?thesis by simp
qed

text \<open>
  Witness for C5, the scenario of the specification: list \<open>a/x\<close> at 100, add \<open>a/y\<close>,
  delete \<open>a/x\<close> at 105 (throttled, the file is stale), then the dump at 200: the file
  is the header and the line of \<open>y\<close>.
\<close>

theorem dump_converges_to_cache_witness:
  "run_events pod_ops scenario_events pod_store pod_world
     = (Return (), scenario_store, scenario_world)
   \<and> TimeBetweenFullDump (storeConfig scenario_store)
       \<le> time_Sub 200 (lastFullDump scenario_store)
   \<and> fst (DumpFullState pod_ops 200 [''a_y''] scenario_store scenario_world) = Return None
   \<and> distinct [''a_y''] \<and> set [''a_y''] = dom (data scenario_store)
   \<and> is_line (header scenario_store)
   \<and> ran (data scenario_store) = {''a y''} \<and> is_line (ToString pod_ops ''a y'')
   \<and> read_file (snd (snd (DumpFullState pod_ops 200 [''a_y''] scenario_store scenario_world)))
        ''/tmp/c/pods''
       = Some (''Namespace Name'' @ [newline] @ ''a y'' @ [newline])
   \<and> (\<exists>c. read_file (snd (snd (DumpFullState pod_ops 200 [''a_y''] scenario_store
              scenario_world))) ''/tmp/c/pods'' = Some c
          \<and> file_lines c = [''Namespace Name'', ''a y'']
          \<and> mset (tl (file_lines c)) = {#''a y''#})"
proof -
  let ?D = "DumpFullState pod_ops 200 [''a_y''] scenario_store scenario_world"
  note sd = scenario_store_def scenario_world_def
  have h2: "TimeBetweenFullDump (storeConfig scenario_store)
      \<le> time_Sub 200 (lastFullDump scenario_store)"
    by (simp add: sd example_defs io_defs)
  have f: "fst ?D = Return None"
    by (simp add: sd io_defs store_defs example_defs)
  then have h3: "?D = (Return None, fst (snd ?D), snd (snd ?D))" by (metis prod.collapse)
  have h4: "distinct [''a_y'']" by simp
  have h5: "set [''a_y''] = dom (data scenario_store)" by (simp add: sd)
  have h6: "is_line (header scenario_store)" by (simp add: sd is_line_def example_defs)
  have h7: "\<forall>r \<in> ran (data scenario_store). is_line (ToString pod_ops r)"
    by (simp add: sd is_line_def example_defs)
  have rd: "read_file (snd (snd ?D)) ''/tmp/c/pods''
      = Some (''Namespace Name'' @ [newline] @ ''a y'' @ [newline])"
    by (simp add: sd io_defs store_defs example_defs)
  have h8: "ran (data scenario_store) = {''a y''}"
    and h9: "is_line (ToString pod_ops ''a y'')"
    by (simp_all add: sd is_line_def example_defs)
  note t = dump_converges_to_cache [OF run_scenario h2 h3 h4 h5 h6 h7]
  have dk: "data (fst (snd ?D)) = [''a_y'' \<mapsto> ''a y'']"
    and df: "destFile (fst (snd ?D)) = ''/tmp/c/pods''"
    by (simp_all add: sd io_defs store_defs example_defs)
  from t have "\<exists>c. read_file (snd (snd ?D)) ''/tmp/c/pods'' = Some c
      \<and> file_lines c = [''Namespace Name'', ''a y'']
      \<and> mset (tl (file_lines c)) = {#''a y''#}"
    unfolding dk df by (simp add: sd example_defs)
  from this run_scenario h2 f h4 h5 h6 h8 h9 rd show ?thesis by blast
qed

subsection \<open>The states the store reaches\<close>

text \<open>
  The two conditions used above on the state hold in every state the store reaches:
  \<open>files_ok\<close>, which gives \<open>fs_separate\<close>, and the absence of an entry at the key
  \<open>Unknown\<close>. \<open>NewK8sStore\<close> establishes them in a world whose directory entries
  name allocated inodes and whose scratch path is no link to the destination file, and
  every call of the informer keeps them.
\<close>

lemma files_ok_separate: "files_ok k w \<Longrightarrow> fs_separate k w"
  by (auto simp: files_ok_def fs_separate_def split: option.splits)

lemma files_ok_cong:
  assumes "files_ok k w" and "paths w' = paths w" and "next_inode w' = next_inode w"
    and "tempFileName k' = tempFileName k" and "destFile k' = destFile k"
  shows "files_ok k' w'"
  using assms by (simp add: files_ok_def)

lemma files_ok_renamed:
  assumes "files_ok k w" and "paths w (tempFileName k) = Some i"
    and "paths w' = ((paths w)(tempFileName k := None))(destFile k \<mapsto> i)"
    and "next_inode w' = next_inode w"
    and "tempFileName k' = tempFileName k" and "destFile k' = destFile k"
  shows "files_ok k' w'"
  using assms by (auto simp: files_ok_def split: if_splits)

lemma os_Create_files_ok:
  assumes ok: "files_ok k w" and cr: "os_Create (tempFileName k) w = (Inr tf, w1)"
  shows "files_ok k w1"
proof -
  obtain f w0 where nf: "next_fault w = (f, w0)" by (cases "next_fault w")
  from ok have bound: "i < next_inode w" if "paths w p = Some i" for p i
    using that by (simp add: files_ok_def)
  from ok have sep: "tempFileName k \<noteq> destFile k"
    "paths w (tempFileName k) \<noteq> Some d" if "paths w (destFile k) = Some d" for d
    using that by (simp_all add: files_ok_def)
  show ?thesis
  proof (cases "paths w (tempFileName k)")
    case None
    with next_fault_frame [OF nf] cr nf
    have w1: "paths w1 = (paths w)(tempFileName k \<mapsto> next_inode w)"
      "next_inode w1 = Suc (next_inode w)"
      by (auto simp: os_Create_def split: option.splits)
    have "paths w (destFile k) \<noteq> Some (next_inode w)"
      using bound [of "destFile k" "next_inode w"] by auto
    with w1 ok show ?thesis
      by (auto simp: files_ok_def less_Suc_eq dest: bound)
  next
    case (Some i)
    with next_fault_frame [OF nf] cr nf
    have "paths w1 = paths w" "next_inode w1 = next_inode w"
      by (auto simp: os_Create_def split: option.splits)
    with ok show ?thesis by (auto intro: files_ok_cong)
  qed
qed

lemma os_Create_fail_frame:
  assumes "os_Create p w = (Inl err, w1)"
  shows "paths w1 = paths w \<and> next_inode w1 = next_inode w"
proof -
  obtain f w0 where nf: "next_fault w = (f, w0)" by (cases "next_fault w")
  from next_fault_frame [OF nf] assms nf show ?thesis
    by (auto simp: os_Create_def split: option.splits)
qed

lemma DumpFullState_files_ok:
  assumes res: "DumpFullState R now ord k w = (r, k', w')" and ok: "files_ok k w"
  shows "files_ok k' w'"
proof (cases "throttled now k")
  case True
  with res ok DumpFullState_skip [OF True, of R ord w] show ?thesis by simp
next
  case nt: False
  note st = DumpFullState_store [OF res nt]
  obtain c w1 where cr: "os_Create (tempFileName k) w = (c, w1)"
    by (cases "os_Create (tempFileName k) w")
  show ?thesis
  proof (cases c)
    case (Inl err)
    with res nt cr have "w' = w1" by (simp add: DumpFullState_def throttled_def)
    with os_Create_fail_frame [of "tempFileName k" w err w1] cr Inl ok st show ?thesis
      by (auto intro: files_ok_cong)
  next
    case (Inr tf)
    let ?i = "h_inode tf"
    note c = os_Create_ok [OF cr [unfolded Inr]]
    have ok1: "files_ok k w1" by (rule os_Create_files_ok [OF ok cr [unfolded Inr]])
    obtain e0 b1 tf1 w2 where
      hd: "bw_WriteString bufio_NewWriter tf (header k) w1 = (e0, b1, tf1, w2)"
      by (metis prod_cases4)
    obtain e2 b2 tf2 w3 where
      lp: "write_records R b1 tf1 (range_values (data k) ord) w2 = (e2, b2, tf2, w3)"
      by (metis prod_cases4)
    obtain e3 b3 tf3 w4 where fl: "bw_Flush b2 tf2 w3 = (e3, b3, tf3, w4)"
      by (metis prod_cases4)
    obtain e4 w5 where sy: "file_Sync tf3 w4 = (e4, w5)" by (cases "file_Sync tf3 w4")
    obtain e5 w6 where rn: "os_Rename (tempFileName k) (destFile k) w5 = (e5, w6)"
      by (cases "os_Rename (tempFileName k) (destFile k) w5")
    note f1 = bw_WriteString_frame [OF hd]
    note f2 = write_records_frame [OF lp]
    note f3 = bw_Flush_frame [OF fl]
    note f4 = file_Sync_frame [OF sy]
    have t2: "touches ?i w1 w2" using f1 by simp
    have t3: "touches ?i w1 w3" using t2 f1 f2 by (auto intro: touches_trans)
    have t4: "touches ?i w1 w4" using t3 f1 f2 f3 by (auto intro: touches_trans)
    have t5: "touches ?i w1 w5" using t4 f4 by (simp add: touches_def)
    have t6: "touches ?i w1 w6" if "e5 \<noteq> None"
      using that t5 os_Rename_fail [of "tempFileName k" "destFile k" w5 _ w6] rn
      by (auto simp: touches_def)
    have r6: "paths w6 = ((paths w1)(tempFileName k := None))(destFile k \<mapsto> ?i)
        \<and> next_inode w6 = next_inode w1" if "e5 = None"
      using that t5 os_Rename_ok [of "tempFileName k" "destFile k" w5 w6] rn c
      by (auto simp: touches_def)
    have "touches ?i w1 w' \<or> (paths w' = ((paths w1)(tempFileName k := None))(destFile k \<mapsto> ?i)
        \<and> next_inode w' = next_inode w1)"
      using res nt cr Inr hd lp fl sy rn t2 t3 t4 t5 t6 r6
      by (auto simp: DumpFullState_def throttled_def split: option.splits)
    then show ?thesis
    proof
      assume "touches ?i w1 w'"
      with ok1 st show ?thesis by (auto simp: touches_def intro: files_ok_cong)
    next
      assume "paths w' = ((paths w1)(tempFileName k := None))(destFile k \<mapsto> ?i)
        \<and> next_inode w' = next_inode w1"
      with files_ok_renamed [OF ok1, of ?i w' k'] c st show ?thesis by simp
    qed
  qed
qed

lemma AppendNewObject_files_ok:
  assumes res: "AppendNewObject R r k w = (e, k', w')" and ok: "files_ok k w"
  shows "files_ok k' w'"
proof -
  note st = AppendNewObject_store [OF res]
  have step: "files_ok k w2"
    if "file_WriteString h s w1 = (e1, h1, w2)" and "files_ok k w1" for h s w1 e1 h1 w2
    using file_WriteString_frame [OF that(1)] that(2)
    by (auto simp: touches_def intro: files_ok_cong)
  have ren: "files_ok k w2"
    if "os_Rename (tempFileName k) (destFile k) w1 = (e1, w2)" and "files_ok k w1"
    for w1 e1 w2
  proof (cases e1)
    case None
    with os_Rename_ok [of "tempFileName k" "destFile k" w1 w2] that show ?thesis
      by (auto intro: files_ok_renamed)
  next
    case (Some a)
    with os_Rename_fail [of "tempFileName k" "destFile k" w1 a w2] that show ?thesis
      by (auto intro: files_ok_cong)
  qed
  have "files_ok k w'"
    using res ok unfolding AppendNewObject_def
    by (auto split: prod.splits option.splits if_splits dest: step ren)
  with st show ?thesis by (auto simp: files_ok_def)
qed

lemma log_dump_result_files_ok:
  assumes "log_dump_result (r, k, w) = (r', k', w')" and "files_ok k w"
  shows "files_ok k' w'"
  using assms
  by (auto simp: log_dump_result_def glog_Warningf_def files_ok_def
      split: outcome.splits option.splits)

lemma foldl_no_Unknown:
  "foldl (\<lambda>m obj. m(resourceKey obj \<mapsto> c obj)) m lst ''Unknown'' = m ''Unknown''"
  by (induction lst arbitrary: m) (simp_all add: resourceKey_not_Unknown [symmetric])

lemma apply_event_invariant:
  assumes res: "apply_event R ev k w = (r, k', w')"
    and ok: "files_ok k w" and nu: "data k ''Unknown'' = None"
  shows "files_ok k' w' \<and> data k' ''Unknown'' = None"
proof (cases ev)
  case (ListEvent now ord lst)
  let ?k = "k\<lparr>data := foldl (\<lambda>m obj. m(resourceKey obj \<mapsto> resourceCtor k obj))
      Map.empty lst\<rparr>"
  obtain r1 k1 w1 where d: "DumpFullState R now ord ?k w = (r1, k1, w1)"
    using prod_cases3 by blast
  from ok have "files_ok ?k w" by (simp add: files_ok_def)
  from DumpFullState_files_ok [OF d this] have ok1: "files_ok k1 w1" .
  from res ListEvent d have l: "log_dump_result (r1, k1, w1) = (r, k', w')"
    by (simp add: AddResourceList_def)
  from l have "k' = k1" using log_dump_result_store [of "(r1, k1, w1)"] by simp
  moreover have "data k1 = data ?k" using DumpFullState_data [of R now ord ?k w] d by simp
  ultimately have "data k' ''Unknown'' = None" by (simp add: foldl_no_Unknown)
  with log_dump_result_files_ok [OF l ok1] show ?thesis by simp
next
  case (AddEvent obj)
  obtain k1 w1 where a: "AddResource R obj k w = (k1, w1)" by (cases "AddResource R obj k w")
  with res AddEvent have eq: "k' = k1" "w' = w1" by simp_all
  let ?k = "k\<lparr>data := (data k)(resourceKey obj \<mapsto> resourceCtor k obj)\<rparr>"
  obtain e k2 w2 where ap: "AppendNewObject R (resourceCtor k obj) ?k w = (e, k2, w2)"
    using prod_cases3 by blast
  from ok have "files_ok ?k w" by (simp add: files_ok_def)
  from AppendNewObject_files_ok [OF ap this] have "files_ok k2 w2" .
  with a ap have "files_ok k1 w1"
    by (auto simp: AddResource_def glog_Warningf_def files_ok_def split: option.splits)
  with AddResource_store [OF a] nu eq show ?thesis
    by (simp add: resourceKey_not_Unknown [symmetric])
next
  case (UpdateEvent now ord oldObj newObj)
  show ?thesis
  proof (cases "HasChanged R (resourceCtor k newObj) (data k (resourceKey newObj))")
    case True
    let ?k = "k\<lparr>data := (data k)(resourceKey newObj \<mapsto> resourceCtor k newObj)\<rparr>"
    obtain r1 k1 w1 where d: "DumpFullState R now ord ?k w = (r1, k1, w1)"
      using prod_cases3 by blast
    from ok have "files_ok ?k w" by (simp add: files_ok_def)
    from DumpFullState_files_ok [OF d this] have ok1: "files_ok k1 w1" .
    from res UpdateEvent True d have l: "log_dump_result (r1, k1, w1) = (r, k', w')"
      by (simp add: UpdateResource_def)
    from l have "k' = k1" using log_dump_result_store [of "(r1, k1, w1)"] by simp
    moreover have "data k1 = data ?k" using DumpFullState_data [of R now ord ?k w] d by simp
    ultimately have "data k' ''Unknown'' = None"
      using nu by (simp add: resourceKey_not_Unknown [symmetric])
    with log_dump_result_files_ok [OF l ok1] show ?thesis by simp
  next
    case False
    with res UpdateEvent ok nu show ?thesis by (simp add: UpdateResource_def)
  qed
next
  case (DeleteEvent now ord obj)
  show ?thesis
  proof (cases "delete_key obj")
    case Panic
    with res DeleteEvent ok nu show ?thesis by (simp add: DeleteResource_def)
  next
    case (Return key)
    let ?k = "k\<lparr>data := (data k)(key := None)\<rparr>"
    obtain r1 k1 w1 where d: "DumpFullState R now ord ?k w = (r1, k1, w1)"
      using prod_cases3 by blast
    from ok have "files_ok ?k w" by (simp add: files_ok_def)
    from DumpFullState_files_ok [OF d this] have ok1: "files_ok k1 w1" .
    from res DeleteEvent Return d have l: "log_dump_result (r1, k1, w1) = (r, k', w')"
      by (simp add: DeleteResource_def)
    from l have "k' = k1" using log_dump_result_store [of "(r1, k1, w1)"] by simp
    moreover have "data k1 = data ?k" using DumpFullState_data [of R now ord ?k w] d by simp
    ultimately have "data k' ''Unknown'' = None" using nu by simp
    with log_dump_result_files_ok [OF l ok1] show ?thesis by simp
  qed
qed

lemma run_events_invariant:
  "run_events R evs k w = (r, k', w') \<Longrightarrow> files_ok k w \<Longrightarrow> data k ''Unknown'' = None \<Longrightarrow>
     files_ok k' w' \<and> data k' ''Unknown'' = None"
proof (induction evs arbitrary: k w)
  case Nil
  then show ?case by simp
next
  case (Cons ev evs)
  obtain r1 k1 w1 where a: "apply_event R ev k w = (r1, k1, w1)" by (metis prod_cases3)
  note i1 = apply_event_invariant [OF a Cons.prems(2,3)]
  show ?case
  proof (cases r1)
    case (Return u)
    with Cons.prems(1) a have "run_events R evs k1 w1 = (r, k', w')" by simp
    from Cons.IH [OF this] i1 show ?thesis by simp
  next
    case Panic
    with Cons.prems(1) a i1 show ?thesis by simp
  qed
qed

lemma NewK8sStore_invariant:
  assumes res: "NewK8sStore path_Join cfg sc w = (Inr k, w')"
    and bound: "\<forall>p i. paths w p = Some i \<longrightarrow> i < next_inode w"
    and sep: "\<forall>d. paths w (path_Join (path_Join (CacheDir sc) (Cluster sc))
                 (cfg_resourceName cfg)) = Some d \<longrightarrow>
               paths w (path_Join (path_Join (CacheDir sc) (Cluster sc))
                 (cfg_resourceName cfg) @ ''_'') \<noteq> Some d"
  shows "files_ok k w' \<and> data k ''Unknown'' = None"
proof -
  let ?dest = "path_Join (path_Join (CacheDir sc) (Cluster sc)) (cfg_resourceName cfg)"
  obtain e w1 where mk: "os_MkdirAll (path_Join (CacheDir sc) (Cluster sc)) w = (e, w1)"
    by (cases "os_MkdirAll (path_Join (CacheDir sc) (Cluster sc)) w")
  obtain f w0 where nf: "next_fault w = (f, w0)" by (cases "next_fault w")
  from next_fault_frame [OF nf] mk nf
  have w1: "paths w1 = paths w" "next_inode w1 = next_inode w"
    by (auto simp: os_MkdirAll_def split: option.splits)
  from res mk obtain tf where cr: "os_Create (?dest @ ''_'') w1 = (Inr tf, w')"
    and dk: "data k = Map.empty" and tk: "tempFileName k = ?dest @ ''_''"
    and dd: "destFile k = ?dest"
    by (auto simp: NewK8sStore_def Let_def split: option.splits sum.splits prod.splits)
  from bound sep w1 tk dd have "files_ok k w1" by (simp add: files_ok_def)
  from os_Create_files_ok [OF this] cr tk have "files_ok k w'" by simp
  with dk show ?thesis by simp
qed

end
